theory Spec2Isabelle
  imports Main "HOL-Library.Sublist" "HOL-Library.Multiset"
begin

section \<open>Data model\<close>

text \<open>
  The timeline builder (\<^verbatim>\<open>timeline.py\<close>) and the status ranking (\<^verbatim>\<open>status_person.py\<close>)
  read a genealogical store through handles. Handles are strings. Every lookup by handle can
  fail; every \<^verbatim>\<open>raise\<close> of the sources is a value of \<open>error\<close>.
\<close>

type_synonym handle = string

datatype error =
    ValueError string
  | HandleError handle
  | AttributeError
  | IndexError

text \<open>
  \<^verbatim>\<open>EventType\<close> belongs to the Gramps library. The members the sources name are constructors;
  every other type, standard or custom, is \<open>OTHER\<close> with its name.
\<close>

datatype event_type =
    BIRTH | DEATH | BURIAL | CREMATION | CAUSE_DEATH | PROBATE
  | MARRIAGE | DIVORCE
  | OTHER string

definition is_birth :: "event_type \<Rightarrow> bool" where
  "is_birth t = (t = BIRTH)"

definition is_death :: "event_type \<Rightarrow> bool" where
  "is_death t = (t = DEATH)"

definition is_marriage :: "event_type \<Rightarrow> bool" where
  "is_marriage t = (t = MARRIAGE)"

definition is_divorce :: "event_type \<Rightarrow> bool" where
  "is_divorce t = (t = DIVORCE)"

definition DEATH_INDICATORS :: "event_type list" where
  "DEATH_INDICATORS = [DEATH, BURIAL, CREMATION, CAUSE_DEATH, PROBATE]"

definition RELATIVES :: "string list" where
  "RELATIVES = [''father'', ''mother'', ''brother'', ''sister'', ''wife'', ''husband'',
     ''son'', ''daughter'']"

definition EVENT_CATEGORIES :: "string list" where
  "EVENT_CATEGORIES = [''vital'', ''family'', ''religious'', ''vocational'', ''academic'',
     ''travel'', ''legal'', ''residence'', ''other'', ''custom'']"

text \<open>
  The tables of the \<^verbatim>\<open>EventType\<close> class that the sources read but do not hold are
  parameters: the standard names, the map from type ids to names, the menu of categories
  (heading, member ids), the two renderings of a type (\<^verbatim>\<open>str\<close> and \<^verbatim>\<open>xml_str\<close>) and
  the test for a birth substitute.
\<close>

record event_type_meta =
  get_standard_xml :: "string list"
  get_map :: "int \<rightharpoonup> string"
  get_menu_standard_xml :: "(string \<times> int list) list"
  type_str :: "event_type \<Rightarrow> string"
  xml_str :: "event_type \<Rightarrow> string"
  is_birth_fallback :: "event_type \<Rightarrow> bool"

record date =
  sortval :: int

text \<open>
  Objects of the store. A reference (\<^verbatim>\<open>event_ref\<close>, \<^verbatim>\<open>birth_ref\<close>) is kept as the handle in
  its \<^verbatim>\<open>ref\<close> field; a child reference also carries citations of its own. The secondary
  objects of a person or family (names, ordinances, attributes, associations, addresses, media)
  are read only for their citations.
\<close>

record citation_base =
  citation_list :: "handle list"

record citation =
  confidence :: int

record child_ref = citation_base +
  ref :: handle

record primary_object = citation_base +
  handle :: handle

record event = primary_object +
  etype :: event_type
  date :: date
  description :: string

record event_owner = primary_object +
  event_ref_list :: "handle list"
  lds_ord_list :: "citation_base list"
  attribute_list :: "citation_base list"
  media_list :: "citation_base list"

record person = event_owner +
  family_list :: "handle list"
  parent_family_list :: "handle list"
  birth_ref :: "handle option"
  death_ref :: "handle option"
  primary_name :: citation_base
  alternate_names :: "citation_base list"
  person_ref_list :: "citation_base list"
  address_list :: "citation_base list"

record family = event_owner +
  father_handle :: "handle option"
  mother_handle :: "handle option"
  child_ref_list :: "child_ref list"

text \<open>The read interface of the store; a lookup of an unknown handle raises \<^verbatim>\<open>HandleError\<close>.\<close>

record store =
  get_person_from_handle :: "handle \<rightharpoonup> person"
  get_family_from_handle :: "handle \<rightharpoonup> family"
  get_event_from_handle :: "handle \<rightharpoonup> event"
  get_citation_from_handle :: "handle \<rightharpoonup> citation"
  get_event_types :: "string list"

definition lookup :: "(handle \<rightharpoonup> 'a) \<Rightarrow> handle \<Rightarrow> error + 'a" where
  "lookup table h = (case table h of None \<Rightarrow> Inl (HandleError h) | Some x \<Rightarrow> Inr x)"

text \<open>
  What the timeline takes from outside the sources besides the event type tables: the
  builtin \<^verbatim>\<open>int\<close> on strings (\<open>None\<close> where it raises), the \<^verbatim>\<open>Date\<close> constructor on a
  year, month and day, the estimated life span and the relationship calculator (given the
  depth it was set to, the reference person and the person).
\<close>

record library = event_type_meta +
  py_int :: "string \<Rightarrow> int option"
  Date :: "int \<Rightarrow> int \<Rightarrow> int \<Rightarrow> date"
  probably_alive_range :: "person \<Rightarrow> date option \<times> date option"
  get_one_relationship :: "int \<Rightarrow> person option \<Rightarrow> person \<Rightarrow> string"

section \<open>Strings\<close>

text \<open>\<^verbatim>\<open>str.lower\<close> on the ASCII letters, which is all the menu headings hold.\<close>

definition char_lower :: "char \<Rightarrow> char" where
  "char_lower c =
     (case map_of (zip ''ABCDEFGHIJKLMNOPQRSTUVWXYZ'' ''abcdefghijklmnopqrstuvwxyz'') c of
        Some l \<Rightarrow> l
      | None \<Rightarrow> c)"

definition lower :: "string \<Rightarrow> string" where
  "lower s = map char_lower s"

text \<open>
  \<^verbatim>\<open>str.replace(old, new)\<close>: occurrences are replaced from the left and do not overlap;
  an empty \<open>old\<close> matches before every character and at the end.
\<close>

function replace :: "string \<Rightarrow> string \<Rightarrow> string \<Rightarrow> string" where
  "replace old new s =
     (if old = [] then new @ concat (map (\<lambda>c. c # new) s)
      else if s = [] then []
      else if prefix old s then new @ replace old new (drop (length old) s)
      else hd s # replace old new (tl s))"
  by pat_completeness auto
termination
  by (relation "measure (\<lambda>(old, new, s). length s)") auto

section \<open>Eligible event types\<close>

text \<open>
  First loop of \<^verbatim>\<open>_prepare_eligible_events\<close>: a token that names a standard or a custom
  type is added; any other token must be a category, or the \<^verbatim>\<open>ValueError\<close> is raised.
\<close>

fun add_filter_types ::
  "string list \<Rightarrow> string list \<Rightarrow> string list \<Rightarrow> string set \<Rightarrow> error + string set" where
  "add_filter_types default_event_types custom_event_types [] eligible_events =
     Inr eligible_events"
| "add_filter_types default_event_types custom_event_types (key # keys) eligible_events =
     (if key \<in> set default_event_types then
        add_filter_types default_event_types custom_event_types keys
          (insert key eligible_events)
      else if key \<in> set custom_event_types then
        add_filter_types default_event_types custom_event_types keys
          (insert key eligible_events)
      else if key \<notin> set EVENT_CATEGORIES then
        Inl (ValueError (key @ '' is not a valid event or event category''))
      else add_filter_types default_event_types custom_event_types keys eligible_events)"

text \<open>Inner loop over the type ids of one menu entry.\<close>

fun add_mapped_ids :: "(int \<rightharpoonup> string) \<Rightarrow> int list \<Rightarrow> string set \<Rightarrow> string set" where
  "add_mapped_ids default_event_map [] eligible_events = eligible_events"
| "add_mapped_ids default_event_map (event_id # ids) eligible_events =
     (case default_event_map event_id of
        Some name \<Rightarrow> add_mapped_ids default_event_map ids (insert name eligible_events)
      | None \<Rightarrow> add_mapped_ids default_event_map ids eligible_events)"

text \<open>Second loop: a category among the tokens brings in the members of its menu entry.\<close>

fun add_categories ::
  "(int \<rightharpoonup> string) \<Rightarrow> string list \<Rightarrow> (string \<times> int list) list \<Rightarrow> string set \<Rightarrow> string set"
  where
  "add_categories default_event_map event_filters [] eligible_events = eligible_events"
| "add_categories default_event_map event_filters (entry # entries) eligible_events =
     (let event_key = replace ''life events'' ''vital'' (lower (fst entry)) in
      if event_key \<in> set event_filters then
        add_categories default_event_map event_filters entries
          (add_mapped_ids default_event_map (snd entry) eligible_events)
      else add_categories default_event_map event_filters entries eligible_events)"

definition prepare_eligible_events ::
  "'a event_type_meta_scheme \<Rightarrow> string list \<Rightarrow> string list \<Rightarrow> error + string set" where
  "prepare_eligible_events meta custom_event_types event_filters =
     (case add_filter_types (get_standard_xml meta) custom_event_types event_filters
             {''Birth'', ''Death''} of
        Inl e \<Rightarrow> Inl e
      | Inr eligible_events \<Rightarrow>
          (let eligible_events =
                 add_categories (get_map meta) event_filters (get_menu_standard_xml meta)
                   eligible_events
           in Inr (if ''custom'' \<in> set event_filters
                   then eligible_events \<union> set custom_event_types
                   else eligible_events)))"

section \<open>The timeline object\<close>

text \<open>
  The fields of a \<^verbatim>\<open>Timeline\<close> that change. An entry of \<open>timeline\<close> is
  \<^verbatim>\<open>(sortval, (event, person, relation))\<close>; \<open>cached_people\<close> is the dictionary from a
  person's handle to the birth found for that person.
\<close>

type_synonym timeline_item = "event \<times> person \<times> string"

record timeline_state =
  timeline :: "(int \<times> timeline_item) list"
  timeline_type :: "string option"
  reference_person :: "person option"
  start_date :: "date option"
  end_date :: "date option"
  precision :: int
  depth :: int
  eligible_events :: "string set"
  event_filters :: "string list"
  eligible_relatives :: "string list"
  eligible_relative_events :: "string set"
  relative_event_filters :: "string list"
  cached_people :: "handle \<rightharpoonup> event option"
  cached_events :: "handle list"

text \<open>\<^verbatim>\<open>str.split(sep)\<close> for a separator of one character.\<close>

fun split :: "char \<Rightarrow> string \<Rightarrow> string list" where
  "split sep [] = [[]]"
| "split sep (c # cs) =
     (if c = sep then [] # split sep cs
      else (case split sep cs of
              [] \<Rightarrow> [[c]]
            | part # parts \<Rightarrow> (c # part) # parts))"

text \<open>
  \<^verbatim>\<open>year, month, day = text.split("/")\<close> followed by
  \<^verbatim>\<open>Date((int(year), int(month), int(day)))\<close>. Unpacking anything but three parts raises
  \<^verbatim>\<open>ValueError\<close>, and so does \<^verbatim>\<open>int\<close> on a part that is no number.
\<close>

definition parse_date :: "library \<Rightarrow> string \<Rightarrow> error + date" where
  "parse_date lib text =
     (case split CHR ''/'' text of
        [year, month, day] \<Rightarrow>
          (case py_int lib year of
             None \<Rightarrow> Inl (ValueError ''invalid literal for int()'')
           | Some y \<Rightarrow>
          (case py_int lib month of
             None \<Rightarrow> Inl (ValueError ''invalid literal for int()'')
           | Some m \<Rightarrow>
          (case py_int lib day of
             None \<Rightarrow> Inl (ValueError ''invalid literal for int()'')
           | Some d \<Rightarrow> Inr (Date lib y m d))))
      | _ \<Rightarrow> Inl (ValueError ''wrong number of values to unpack''))"

text \<open>
  The last statement of \<^verbatim>\<open>__init__\<close>: the pair of bounds read from \<open>dates\<close>. Both stay
  \<open>None\<close> unless the string is non-empty and holds a \<open>-\<close>.
\<close>

definition parse_side :: "library \<Rightarrow> string \<Rightarrow> error + date option" where
  "parse_side lib side =
     (if CHR ''/'' \<in> set side then
        (case parse_date lib side of Inl e \<Rightarrow> Inl e | Inr d \<Rightarrow> Inr (Some d))
      else Inr None)"

definition parse_dates :: "library \<Rightarrow> string option \<Rightarrow> error + date option \<times> date option" where
  "parse_dates lib dates =
     (case dates of
        None \<Rightarrow> Inr (None, None)
      | Some text \<Rightarrow>
          if text \<noteq> [] \<and> CHR ''-'' \<in> set text then
            (case split CHR ''-'' text of
               [start, end] \<Rightarrow>
                 (case parse_side lib start of
                    Inl e \<Rightarrow> Inl e
                  | Inr start_bound \<Rightarrow>
                 (case parse_side lib end of
                    Inl e \<Rightarrow> Inl e
                  | Inr end_bound \<Rightarrow> Inr (start_bound, end_bound)))
             | _ \<Rightarrow> Inl (ValueError ''too many values to unpack''))
          else Inr (None, None))"

text \<open>
  \<^verbatim>\<open>__init__\<close>. An argument left out or given as \<^verbatim>\<open>None\<close> is \<open>None\<close>; \<^verbatim>\<open>events or []\<close>
  reads it as the empty list.
\<close>

definition or_empty :: "'a list option \<Rightarrow> 'a list" where
  "or_empty xs = (case xs of None \<Rightarrow> [] | Some l \<Rightarrow> l)"

definition init ::
  "library \<Rightarrow> store \<Rightarrow> string option \<Rightarrow> string list option \<Rightarrow> string list option \<Rightarrow>
   string list option \<Rightarrow> int \<Rightarrow> error + timeline_state" where
  "init lib db_handle dates events relatives relative_events prec =
     (case prepare_eligible_events lib (get_event_types db_handle) (or_empty events) of
        Inl e \<Rightarrow> Inl e
      | Inr eligible \<Rightarrow>
     (case prepare_eligible_events lib (get_event_types db_handle)
             (or_empty relative_events) of
        Inl e \<Rightarrow> Inl e
      | Inr eligible_relative \<Rightarrow>
     (case parse_dates lib dates of
        Inl e \<Rightarrow> Inl e
      | Inr (start, end) \<Rightarrow>
          Inr \<lparr>timeline = [], timeline_type = None, reference_person = None,
               start_date = start, end_date = end, precision = prec, depth = 1,
               eligible_events = eligible, event_filters = or_empty events,
               eligible_relatives = or_empty relatives,
               eligible_relative_events = eligible_relative,
               relative_event_filters = or_empty relative_events,
               cached_people = Map.empty, cached_events = []\<rparr>)))"


section \<open>Eligibility and merging\<close>

definition is_eligible :: "library \<Rightarrow> timeline_state \<Rightarrow> event \<Rightarrow> bool \<Rightarrow> bool" where
  "is_eligible lib self ev relative =
     (if relative then type_str lib (etype ev) \<in> eligible_relative_events self
      else if event_filters self = [] then True
      else type_str lib (etype ev) \<in> eligible_events self)"

text \<open>
  The \<open>override\<close> flag of \<^verbatim>\<open>merge_eligible_events\<close>: the event has the handle of the birth or
  of the death chosen for the person. An event object is true in a condition whenever it is
  not \<^verbatim>\<open>None\<close>.
\<close>

definition override :: "event option \<Rightarrow> event option \<Rightarrow> event \<Rightarrow> bool" where
  "override birth death ev =
     ((case birth of None \<Rightarrow> False | Some b \<Rightarrow> handle ev = handle b) \<or>
      (case death of None \<Rightarrow> False | Some d \<Rightarrow> handle ev = handle d))"

text \<open>
  \<^verbatim>\<open>merge_eligible_events\<close>, one keyed event per step. Each \<^verbatim>\<open>continue\<close> of the loop is a
  branch that leaves the object as it is. A \<^verbatim>\<open>Date\<close> object is true in a condition, so a
  bound applies whenever it is not \<^verbatim>\<open>None\<close>. The \<^verbatim>\<open>print\<close> calls are left out.
\<close>

fun merge_eligible_events ::
  "library \<Rightarrow> timeline_state \<Rightarrow> person \<Rightarrow> (int \<times> event) list \<Rightarrow> string \<Rightarrow> bool \<Rightarrow>
   event option \<Rightarrow> event option \<Rightarrow> timeline_state" where
  "merge_eligible_events lib self person [] relation relative birth death = self"
| "merge_eligible_events lib self person (keyed_event # rest) relation relative birth death =
     (if handle (snd keyed_event) \<in> set (cached_events self) then
        merge_eligible_events lib self person rest relation relative birth death
      else if \<not> is_eligible lib self (snd keyed_event) relative \<and>
              \<not> override birth death (snd keyed_event) then
        merge_eligible_events lib self person rest relation relative birth death
      else if (case start_date self of
                 None \<Rightarrow> False
               | Some bound \<Rightarrow> fst keyed_event < sortval bound) then
        merge_eligible_events lib self person rest relation relative birth death
      else if (case end_date self of
                 None \<Rightarrow> False
               | Some bound \<Rightarrow> fst keyed_event > sortval bound) then
        merge_eligible_events lib self person rest relation relative birth death
      else
        merge_eligible_events lib
          (self\<lparr>timeline :=
                  timeline self @ [(fst keyed_event, (snd keyed_event, person, relation))],
                cached_events := cached_events self @ [handle (snd keyed_event)]\<rparr>)
          person rest relation relative birth death)"

section \<open>Sort keys of undated events\<close>

text \<open>
  \<^verbatim>\<open>xs[i]\<close>: positions from the front for \<open>i\<close> from 0, from the back for \<open>i\<close> below 0, and
  \<^verbatim>\<open>IndexError\<close> outside the list.
\<close>

definition py_nth :: "'a list \<Rightarrow> int \<Rightarrow> error + 'a" where
  "py_nth xs i =
     (if 0 \<le> i \<and> i < int (length xs) then Inr (xs ! nat i)
      else if i < 0 \<and> - int (length xs) \<le> i then Inr (xs ! nat (int (length xs) + i))
      else Inl IndexError)"

text \<open>
  The loop over the events of the child in \<^verbatim>\<open>generate_union_event_sortval\<close>. It stops at
  the first event that is a birth or a birth substitute, whichever comes first.
\<close>

fun child_birth_scan ::
  "library \<Rightarrow> store \<Rightarrow> handle list \<Rightarrow> event option \<Rightarrow> event option \<Rightarrow>
   error + event option \<times> event option" where
  "child_birth_scan lib db [] birth birth_fallback = Inr (birth, birth_fallback)"
| "child_birth_scan lib db (event_ref # refs) birth birth_fallback =
     (case lookup (get_event_from_handle db) event_ref of
        Inl e \<Rightarrow> Inl e
      | Inr ev \<Rightarrow>
          if is_birth (etype ev) then Inr (Some ev, birth_fallback)
          else if birth = None \<and> birth_fallback = None \<and> is_birth_fallback lib (etype ev)
          then Inr (birth, Some ev)
          else child_birth_scan lib db refs birth birth_fallback)"

text \<open>
  \<^verbatim>\<open>generate_union_event_sortval\<close>. The result is \<open>None\<close> where the function falls off its
  end (a family without children). Called without a family it raises on
  \<^verbatim>\<open>family.child_ref_list\<close>.
\<close>

definition generate_union_event_sortval ::
  "library \<Rightarrow> store \<Rightarrow> family option \<Rightarrow> bool \<Rightarrow> error + int option" where
  "generate_union_event_sortval lib db fam is_union =
     (let index = (if is_union then 1 else 0) - (1::int);
          offset = (if - (if is_union then 1 else 0) \<noteq> (0::int)
                    then - (if is_union then 1 else 0) else 1)
      in case fam of
           None \<Rightarrow> Inl AttributeError
         | Some f \<Rightarrow>
             if child_ref_list f \<noteq> [] then
               (case py_nth (child_ref_list f) index of
                  Inl e \<Rightarrow> Inl e
                | Inr child_reference \<Rightarrow>
               (case lookup (get_person_from_handle db) (ref child_reference) of
                  Inl e \<Rightarrow> Inl e
                | Inr child \<Rightarrow>
               (case child_birth_scan lib db (event_ref_list child) None None of
                  Inl e \<Rightarrow> Inl e
                | Inr (birth, birth_fallback) \<Rightarrow>
                    (case (if birth = None \<and> birth_fallback \<noteq> None
                           then birth_fallback else birth) of
                       Some b \<Rightarrow>
                         if sortval (date b) \<noteq> 0 then Inr (Some (sortval (date b) + offset))
                         else Inr (Some 0)
                     | None \<Rightarrow> Inr (Some 0)))))
             else Inr None)"

text \<open>
  The seed of \<open>lastval\<close> in \<^verbatim>\<open>prepare_event_sortvals\<close>: when the first event has no date,
  the key of the first dated event minus its position, and 0 when no event is dated.
\<close>

fun first_dated :: "event list \<Rightarrow> int \<Rightarrow> int" where
  "first_dated [] index = 0"
| "first_dated (ev # evs) index =
     (if sortval (date ev) \<noteq> 0 then sortval (date ev) - index
      else first_dated evs (index + 1))"

definition initial_lastval :: "event list \<Rightarrow> int" where
  "initial_lastval events =
     (case events of
        [] \<Rightarrow> 0
      | ev # evs \<Rightarrow> if sortval (date ev) = 0 then first_dated events 0 else 0)"

text \<open>
  The body of the second loop: the key of one event, given the key before it. A value is
  false in a condition when it is \<^verbatim>\<open>None\<close> or 0.
\<close>

definition event_key ::
  "library \<Rightarrow> store \<Rightarrow> family option \<Rightarrow> event \<Rightarrow> int \<Rightarrow> error + int" where
  "event_key lib db fam ev lastval =
     (if sortval (date ev) = 0 then
        (case (if is_marriage (etype ev) then generate_union_event_sortval lib db fam True
               else Inr (Some (sortval (date ev)))) of
           Inl e \<Rightarrow> Inl e
         | Inr key \<Rightarrow>
        (case (if is_divorce (etype ev) then generate_union_event_sortval lib db fam False
               else Inr key) of
           Inl e \<Rightarrow> Inl e
         | Inr key \<Rightarrow>
             Inr (case key of
                    None \<Rightarrow> lastval + 1
                  | Some k \<Rightarrow> if k = 0 then lastval + 1 else k)))
      else Inr (sortval (date ev)))"

fun key_events ::
  "library \<Rightarrow> store \<Rightarrow> family option \<Rightarrow> event list \<Rightarrow> int \<Rightarrow> error + (int \<times> event) list"
  where
  "key_events lib db fam [] lastval = Inr []"
| "key_events lib db fam (ev # evs) lastval =
     (case event_key lib db fam ev lastval of
        Inl e \<Rightarrow> Inl e
      | Inr key \<Rightarrow>
          (case key_events lib db fam evs key of
             Inl e \<Rightarrow> Inl e
           | Inr keyed_list \<Rightarrow> Inr ((key, ev) # keyed_list)))"

definition prepare_event_sortvals ::
  "library \<Rightarrow> store \<Rightarrow> event list \<Rightarrow> family option \<Rightarrow> error + (int \<times> event) list" where
  "prepare_event_sortvals lib db events fam =
     (if events = [] then Inr [] else key_events lib db fam events (initial_lastval events))"

section \<open>The events of a person\<close>

text \<open>
  First loop of \<^verbatim>\<open>extract_person_events\<close>; the state is \<open>(birth, birth_fallback, death,
  death_fallback, events)\<close>.
\<close>

fun person_event_scan ::
  "library \<Rightarrow> store \<Rightarrow> handle list \<Rightarrow>
   event option \<times> event option \<times> event option \<times> event option \<times> event list \<Rightarrow>
   error + event option \<times> event option \<times> event option \<times> event option \<times> event list" where
  "person_event_scan lib db [] found = Inr found"
| "person_event_scan lib db (event_ref # refs) found =
     (case lookup (get_event_from_handle db) event_ref of
        Inl e \<Rightarrow> Inl e
      | Inr ev \<Rightarrow>
          (case found of (birth, birth_fallback, death, death_fallback, events) \<Rightarrow>
             (let birth = (if is_birth (etype ev) then Some ev else birth);
                  birth_fallback =
                    (if birth = None \<and> birth_fallback = None \<and> is_birth_fallback lib (etype ev)
                     then Some ev else birth_fallback);
                  death = (if is_death (etype ev) then Some ev else death);
                  death_fallback =
                    (if death = None \<and> death_fallback = None \<and> etype ev \<in> set DEATH_INDICATORS
                     then Some ev else death_fallback)
              in person_event_scan lib db refs
                   (birth, birth_fallback, death, death_fallback, events @ [ev]))))"

text \<open>Inner loop over the event references of one family.\<close>

fun family_event_scan :: "store \<Rightarrow> handle list \<Rightarrow> event list \<Rightarrow> error + event list" where
  "family_event_scan db [] events = Inr events"
| "family_event_scan db (event_ref # refs) events =
     (case lookup (get_event_from_handle db) event_ref of
        Inl e \<Rightarrow> Inl e
      | Inr ev \<Rightarrow> family_event_scan db refs (events @ [ev]))"

text \<open>
  Loop over the families of the person. The list \<open>events\<close> is not emptied between
  families, as in the source.
\<close>

fun family_timelines ::
  "library \<Rightarrow> store \<Rightarrow> handle list \<Rightarrow> event list \<Rightarrow> (int \<times> event) list \<Rightarrow>
   error + (int \<times> event) list" where
  "family_timelines lib db [] events keyed = Inr keyed"
| "family_timelines lib db (family_handle # handles) events keyed =
     (case lookup (get_family_from_handle db) family_handle of
        Inl e \<Rightarrow> Inl e
      | Inr f \<Rightarrow>
     (case family_event_scan db (event_ref_list f) events of
        Inl e \<Rightarrow> Inl e
      | Inr events \<Rightarrow>
     (case prepare_event_sortvals lib db events (Some f) of
        Inl e \<Rightarrow> Inl e
      | Inr family_keyed \<Rightarrow> family_timelines lib db handles events (keyed @ family_keyed))))"

definition extract_person_events ::
  "library \<Rightarrow> store \<Rightarrow> person \<Rightarrow>
   error + (int \<times> event) list \<times> event option \<times> event option" where
  "extract_person_events lib db p =
     (case person_event_scan lib db (event_ref_list p) (None, None, None, None, []) of
        Inl e \<Rightarrow> Inl e
      | Inr (birth, birth_fallback, death, death_fallback, events) \<Rightarrow>
     (case prepare_event_sortvals lib db events None of
        Inl e \<Rightarrow> Inl e
      | Inr keyed \<Rightarrow>
          (let birth = (if birth = None \<and> birth_fallback \<noteq> None then birth_fallback else birth);
               death = (if death = None \<and> death_fallback \<noteq> None then death_fallback else death)
           in case family_timelines lib db (family_list p) [] keyed of
                Inl e \<Rightarrow> Inl e
              | Inr keyed \<Rightarrow> Inr (keyed, birth, death))))"

section \<open>Building a timeline\<close>

text \<open>
  The statement \<^verbatim>\<open>if person.handle not in self.cached_people: self.cached_people.update(...)\<close>
  that follows every merge.
\<close>

definition cache_person :: "timeline_state \<Rightarrow> person \<Rightarrow> event option \<Rightarrow> timeline_state" where
  "cache_person self p birth =
     (if handle p \<notin> dom (cached_people self)
      then self\<lparr>cached_people := (cached_people self)(handle p \<mapsto> birth)\<rparr>
      else self)"

definition add_person :: "library \<Rightarrow> store \<Rightarrow> timeline_state \<Rightarrow> handle \<Rightarrow> error + timeline_state"
  where
  "add_person lib db self h =
     (case lookup (get_person_from_handle db) h of
        Inl e \<Rightarrow> Inl e
      | Inr p \<Rightarrow>
     (case extract_person_events lib db p of
        Inl e \<Rightarrow> Inl e
      | Inr (keyed, birth, death) \<Rightarrow>
          Inr (cache_person
                 (merge_eligible_events lib self p keyed ''self'' False birth death) p birth)))"

text \<open>The loop \<^verbatim>\<open>for child in family.child_ref_list: self.add_person(child.ref)\<close>.\<close>

fun add_people :: "library \<Rightarrow> store \<Rightarrow> timeline_state \<Rightarrow> child_ref list \<Rightarrow> error + timeline_state"
  where
  "add_people lib db self [] = Inr self"
| "add_people lib db self (child # children) =
     (case add_person lib db self (ref child) of
        Inl e \<Rightarrow> Inl e
      | Inr self \<Rightarrow> add_people lib db self children)"

text \<open>
  A handle is true in a condition when it is neither \<^verbatim>\<open>None\<close> nor empty.
\<close>

definition new_parent :: "timeline_state \<Rightarrow> handle option \<Rightarrow> handle option" where
  "new_parent self parent_handle =
     (case parent_handle of
        None \<Rightarrow> None
      | Some h \<Rightarrow> if h \<noteq> [] \<and> h \<notin> dom (cached_people self) then Some h else None)"

function
  add_relative ::
    "library \<Rightarrow> store \<Rightarrow> timeline_state \<Rightarrow> handle \<Rightarrow> int \<Rightarrow> int \<Rightarrow> error + timeline_state"
  and add_matching ::
    "library \<Rightarrow> store \<Rightarrow> timeline_state \<Rightarrow> person \<Rightarrow> string \<Rightarrow> string list \<Rightarrow> int \<Rightarrow> int \<Rightarrow>
     error + timeline_state"
  and add_spouse_families ::
    "library \<Rightarrow> store \<Rightarrow> timeline_state \<Rightarrow> handle list \<Rightarrow> int \<Rightarrow> error + timeline_state"
  and add_children ::
    "library \<Rightarrow> store \<Rightarrow> timeline_state \<Rightarrow> child_ref list \<Rightarrow> int \<Rightarrow> error + timeline_state"
  and add_parent_families ::
    "library \<Rightarrow> store \<Rightarrow> timeline_state \<Rightarrow> handle list \<Rightarrow> int \<Rightarrow> error + timeline_state"
  and add_family ::
    "library \<Rightarrow> store \<Rightarrow> timeline_state \<Rightarrow> handle \<Rightarrow> int \<Rightarrow> int \<Rightarrow> bool \<Rightarrow>
     error + timeline_state"
  where
  "add_relative lib db self h ancestors offspring =
     (if eligible_relatives self = [] then Inr self
      else
        (case lookup (get_person_from_handle db) h of
           Inl e \<Rightarrow> Inl e
         | Inr p \<Rightarrow>
             add_matching lib db self p
               (get_one_relationship lib (depth self) (reference_person self) p)
               (eligible_relatives self) ancestors offspring))"
| "add_matching lib db self p relationship [] ancestors offspring = Inr self"
| "add_matching lib db self p relationship (relative # relatives) ancestors offspring =
     (if sublist relative relationship then
        (case extract_person_events lib db p of
           Inl e \<Rightarrow> Inl e
         | Inr (keyed, birth, death) \<Rightarrow>
        (case (if offspring > 0
               then add_spouse_families lib db
                      (cache_person
                         (merge_eligible_events lib self p keyed relationship True birth death)
                         p birth)
                      (family_list p) offspring
               else Inr (cache_person
                         (merge_eligible_events lib self p keyed relationship True birth death)
                         p birth)) of
           Inl e \<Rightarrow> Inl e
         | Inr self1 \<Rightarrow>
        (case (if ancestors > 1 \<and>
                  (sublist ''father'' relationship \<or> sublist ''mother'' relationship)
               then add_parent_families lib db self1 (parent_family_list p) ancestors
               else Inr self1) of
           Inl e \<Rightarrow> Inl e
         | Inr self2 \<Rightarrow>
             add_matching lib db self2 p relationship relatives ancestors offspring)))
      else add_matching lib db self p relationship relatives ancestors offspring)"
| "add_spouse_families lib db self [] offspring = Inr self"
| "add_spouse_families lib db self (family_handle # handles) offspring =
     (case lookup (get_family_from_handle db) family_handle of
        Inl e \<Rightarrow> Inl e
      | Inr f \<Rightarrow>
     (case (case new_parent self (father_handle f) of
              None \<Rightarrow> Inr self
            | Some father \<Rightarrow> add_relative lib db self father 1 (offspring - 1)) of
        Inl e \<Rightarrow> Inl e
      | Inr self1 \<Rightarrow>
     (case (case new_parent self1 (mother_handle f) of
              None \<Rightarrow> Inr self1
            | Some mother \<Rightarrow> add_relative lib db self1 mother 1 (offspring - 1)) of
        Inl e \<Rightarrow> Inl e
      | Inr self2 \<Rightarrow>
     (case add_children lib db self2 (child_ref_list f) (offspring - 1) of
        Inl e \<Rightarrow> Inl e
      | Inr self3 \<Rightarrow> add_spouse_families lib db self3 handles offspring))))"
| "add_children lib db self [] offspring = Inr self"
| "add_children lib db self (child # children) offspring =
     (case (if ref child \<notin> dom (cached_people self)
            then add_relative lib db self (ref child) 1 offspring
            else Inr self) of
        Inl e \<Rightarrow> Inl e
      | Inr self1 \<Rightarrow> add_children lib db self1 children offspring)"
| "add_parent_families lib db self [] ancestors = Inr self"
| "add_parent_families lib db self (family_handle # handles) ancestors =
     (case add_family lib db self family_handle (ancestors - 1) 0 False of
        Inl e \<Rightarrow> Inl e
      | Inr self1 \<Rightarrow> add_parent_families lib db self1 handles ancestors)"
| "add_family lib db self h ancestors offspring include_children =
     (case lookup (get_family_from_handle db) h of
        Inl e \<Rightarrow> Inl e
      | Inr f \<Rightarrow>
          if reference_person self \<noteq> None then
            (case (case new_parent self (father_handle f) of
                     None \<Rightarrow> Inr self
                   | Some father \<Rightarrow> add_relative lib db self father ancestors 1) of
               Inl e \<Rightarrow> Inl e
             | Inr self1 \<Rightarrow>
            (case (case new_parent self1 (mother_handle f) of
                     None \<Rightarrow> Inr self1
                   | Some mother \<Rightarrow> add_relative lib db self1 mother ancestors 1) of
               Inl e \<Rightarrow> Inl e
             | Inr self2 \<Rightarrow>
                 if include_children
                 then add_children lib db self2 (child_ref_list f) offspring
                 else Inr self2))
          else
            (case (case father_handle f of
                     None \<Rightarrow> Inr self
                   | Some father \<Rightarrow>
                       if father \<noteq> [] then add_person lib db self father else Inr self) of
               Inl e \<Rightarrow> Inl e
             | Inr self1 \<Rightarrow>
            (case (case mother_handle f of
                     None \<Rightarrow> Inr self1
                   | Some mother \<Rightarrow>
                       if mother \<noteq> [] then add_person lib db self1 mother else Inr self1) of
               Inl e \<Rightarrow> Inl e
             | Inr self2 \<Rightarrow> add_people lib db self2 (child_ref_list f))))"
  by pat_completeness auto
termination
  by (relation "measures
        [\<lambda>call. case call of
            Inl (Inl (lib, db, self, h, ancestors, offspring)) \<Rightarrow> nat (max ancestors 1)
          | Inl (Inr (Inl (lib, db, self, p, relationship, relatives, ancestors, offspring))) \<Rightarrow>
              nat (max ancestors 1)
          | Inl (Inr (Inr (lib, db, self, handles, offspring))) \<Rightarrow> 1
          | Inr (Inl (lib, db, self, children, offspring)) \<Rightarrow> 1
          | Inr (Inr (Inl (lib, db, self, handles, ancestors))) \<Rightarrow> nat (max (ancestors - 1) 1)
          | Inr (Inr (Inr (lib, db, self, h, ancestors, offspring, include_children))) \<Rightarrow>
              nat (max ancestors 1),
         \<lambda>call. case call of
            Inl (Inl (lib, db, self, h, ancestors, offspring)) \<Rightarrow> nat offspring
          | Inl (Inr (Inl (lib, db, self, p, relationship, relatives, ancestors, offspring))) \<Rightarrow>
              nat offspring
          | Inl (Inr (Inr (lib, db, self, handles, offspring))) \<Rightarrow> nat (offspring - 1)
          | Inr (Inl (lib, db, self, children, offspring)) \<Rightarrow> nat offspring
          | Inr (Inr (Inl (lib, db, self, handles, ancestors))) \<Rightarrow> 1
          | Inr (Inr (Inr (lib, db, self, h, ancestors, offspring, include_children))) \<Rightarrow>
              nat (max offspring 1),
         \<lambda>call. case call of
            Inl (Inl (lib, db, self, h, ancestors, offspring)) \<Rightarrow> 1
          | Inl (Inr (Inl (lib, db, self, p, relationship, relatives, ancestors, offspring))) \<Rightarrow> 0
          | Inl (Inr (Inr (lib, db, self, handles, offspring))) \<Rightarrow> 5
          | Inr (Inl (lib, db, self, children, offspring)) \<Rightarrow> 2
          | Inr (Inr (Inl (lib, db, self, handles, ancestors))) \<Rightarrow> 4
          | Inr (Inr (Inr (lib, db, self, h, ancestors, offspring, include_children))) \<Rightarrow> 3,
         \<lambda>call. case call of
            Inl (Inl (lib, db, self, h, ancestors, offspring)) \<Rightarrow> 0
          | Inl (Inr (Inl (lib, db, self, p, relationship, relatives, ancestors, offspring))) \<Rightarrow>
              length relatives
          | Inl (Inr (Inr (lib, db, self, handles, offspring))) \<Rightarrow> length handles
          | Inr (Inl (lib, db, self, children, offspring)) \<Rightarrow> length children
          | Inr (Inr (Inl (lib, db, self, handles, ancestors))) \<Rightarrow> length handles
          | Inr (Inr (Inr (lib, db, self, h, ancestors, offspring, include_children))) \<Rightarrow> 0]")
    auto

text \<open>The two loops over families at the end of \<^verbatim>\<open>set_person\<close>.\<close>

fun add_families ::
  "library \<Rightarrow> store \<Rightarrow> timeline_state \<Rightarrow> handle list \<Rightarrow> int \<Rightarrow> int \<Rightarrow>
   error + timeline_state" where
  "add_families lib db self [] ancestors offspring = Inr self"
| "add_families lib db self (family_handle # handles) ancestors offspring =
     (case add_family lib db self family_handle ancestors offspring True of
        Inl e \<Rightarrow> Inl e
      | Inr self1 \<Rightarrow> add_families lib db self1 handles ancestors offspring)"

text \<open>
  The bounds that \<^verbatim>\<open>set_person\<close> fills in when relatives are asked for: a bound that is
  still \<^verbatim>\<open>None\<close> becomes the date of the birth (for the end, the date of the last event in
  key order when there is a death), or else the estimated life span. The sort is that of
  the local list of keyed events.
\<close>

definition default_bounds ::
  "library \<Rightarrow> timeline_state \<Rightarrow> person \<Rightarrow> (int \<times> event) list \<Rightarrow> event option \<Rightarrow>
   event option \<Rightarrow> error + timeline_state" where
  "default_bounds lib self p keyed birth death =
     (let sorted_keyed = sort_key fst keyed;
          lifespan = probably_alive_range lib p;
          self1 = (if start_date self = None
                   then (case birth of
                           Some b \<Rightarrow> self\<lparr>start_date := Some (date b)\<rparr>
                         | None \<Rightarrow> self\<lparr>start_date := fst lifespan\<rparr>)
                   else self)
      in if end_date self1 = None then
           (case death of
              Some d \<Rightarrow>
                (case py_nth sorted_keyed (- 1) of
                   Inl e \<Rightarrow> Inl e
                 | Inr final \<Rightarrow> Inr (self1\<lparr>end_date := Some (date (snd final))\<rparr>))
            | None \<Rightarrow> Inr (self1\<lparr>end_date := snd lifespan\<rparr>))
         else Inr self1)"

definition set_person ::
  "library \<Rightarrow> store \<Rightarrow> timeline_state \<Rightarrow> handle \<Rightarrow> int \<Rightarrow> int \<Rightarrow> error + timeline_state"
  where
  "set_person lib db self h ancestors offspring =
     (case lookup (get_person_from_handle db) h of
        Inl e \<Rightarrow> Inl e
      | Inr p \<Rightarrow>
     (case extract_person_events lib db p of
        Inl e \<Rightarrow> Inl e
      | Inr (keyed, birth, death) \<Rightarrow>
          (let self1 = cache_person
                 (merge_eligible_events lib
                    (self\<lparr>timeline := [], timeline_type := Some ''person'',
                          cached_people := Map.empty, cached_events := []\<rparr>)
                    p keyed ''self'' False birth death)
                 p birth
           in if ancestors \<noteq> 0 \<or> offspring \<noteq> 0 then
                (case default_bounds lib
                        (self1\<lparr>reference_person := Some p,
                               depth := max ancestors offspring + 1\<rparr>)
                        p keyed birth death of
                   Inl e \<Rightarrow> Inl e
                 | Inr self2 \<Rightarrow>
                (case add_families lib db self2 (parent_family_list p) ancestors 0 of
                   Inl e \<Rightarrow> Inl e
                 | Inr self3 \<Rightarrow> add_families lib db self3 (family_list p) ancestors offspring))
              else Inr self1)))"

definition set_family ::
  "library \<Rightarrow> store \<Rightarrow> timeline_state \<Rightarrow> handle \<Rightarrow> int \<Rightarrow> int \<Rightarrow> error + timeline_state"
  where
  "set_family lib db self h ancestors offspring =
     add_family lib db
       (self\<lparr>timeline := [], timeline_type := Some ''family'',
             cached_people := Map.empty, cached_events := []\<rparr>)
       h ancestors offspring True"

text \<open>
  \<^verbatim>\<open>events\<close>: the list is sorted in place by key (the sort of Python lists is stable) and
  returned as it is or without the keys.
\<close>

datatype listing =
    Keyed "(int \<times> timeline_item) list"
  | Plain "timeline_item list"

definition events :: "timeline_state \<Rightarrow> bool \<Rightarrow> listing \<times> timeline_state" where
  "events self raw =
     (let self1 = self\<lparr>timeline := sort_key fst (timeline self)\<rparr>
      in (if raw then Keyed (timeline self1) else Plain (map snd (timeline self1)), self1))"

text \<open>
  A run: one call of \<^verbatim>\<open>set_person\<close> or \<^verbatim>\<open>set_family\<close>, then any calls that add to the
  timeline.
\<close>

datatype call =
    Add_person handle
  | Add_relative handle int int
  | Add_family handle int int bool

fun do_call :: "library \<Rightarrow> store \<Rightarrow> timeline_state \<Rightarrow> call \<Rightarrow> error + timeline_state" where
  "do_call lib db self (Add_person h) = add_person lib db self h"
| "do_call lib db self (Add_relative h ancestors offspring) =
     add_relative lib db self h ancestors offspring"
| "do_call lib db self (Add_family h ancestors offspring include_children) =
     add_family lib db self h ancestors offspring include_children"

fun do_calls :: "library \<Rightarrow> store \<Rightarrow> timeline_state \<Rightarrow> call list \<Rightarrow> error + timeline_state"
  where
  "do_calls lib db self [] = Inr self"
| "do_calls lib db self (c # cs) =
     (case do_call lib db self c of
        Inl e \<Rightarrow> Inl e
      | Inr self1 \<Rightarrow> do_calls lib db self1 cs)"

datatype start = Set_person handle int int | Set_family handle int int

fun run :: "library \<Rightarrow> store \<Rightarrow> timeline_state \<Rightarrow> start \<Rightarrow> call list \<Rightarrow> error + timeline_state"
  where
  "run lib db self (Set_person h ancestors offspring) calls =
     (case set_person lib db self h ancestors offspring of
        Inl e \<Rightarrow> Inl e
      | Inr self1 \<Rightarrow> do_calls lib db self1 calls)"
| "run lib db self (Set_family h ancestors offspring) calls =
     (case set_family lib db self h ancestors offspring of
        Inl e \<Rightarrow> Inl e
      | Inr self1 \<Rightarrow> do_calls lib db self1 calls)"

section \<open>Status ranking\<close>

text \<open>
  The object handed to the ranking is a person, a family or something else
  (\<^verbatim>\<open>isinstance\<close> in the source).
\<close>

datatype primary_obj = Person person | Family family | Other

text \<open>
  Rows of the two buckets. An object row is \<^verbatim>\<open>(obj, child_obj, description, total_count,
  total_confidence, highest_confidence)\<close>, the child object kept as its citations; an event row
  is \<^verbatim>\<open>(event, event_type, primary, total_count, total_confidence, highest_confidence)\<close>.
\<close>

type_synonym object_row = "primary_obj \<times> citation_base \<times> string \<times> int \<times> int \<times> int"
type_synonym event_row = "event \<times> event_type \<times> bool \<times> int \<times> int \<times> int"

text \<open>The loop of \<^verbatim>\<open>get_citation_metrics\<close> over the citation handles.\<close>

fun citation_scan :: "store \<Rightarrow> handle list \<Rightarrow> int \<Rightarrow> int \<Rightarrow> error + int \<times> int" where
  "citation_scan db [] total_confidence highest_confidence =
     Inr (total_confidence, highest_confidence)"
| "citation_scan db (h # citations) total_confidence highest_confidence =
     (case lookup (get_citation_from_handle db) h of
        Inl e \<Rightarrow> Inl e
      | Inr c \<Rightarrow>
          citation_scan db citations (total_confidence + confidence c)
            (if confidence c > highest_confidence then confidence c else highest_confidence))"

definition get_citation_metrics :: "store \<Rightarrow> handle list \<Rightarrow> error + int \<times> int \<times> int" where
  "get_citation_metrics db citations =
     (case citation_scan db citations 0 0 of
        Inl e \<Rightarrow> Inl e
      | Inr (total_confidence, highest_confidence) \<Rightarrow>
          Inr (int (length citations), total_confidence, highest_confidence))"

definition get_preferred_vital_handles :: "primary_obj \<Rightarrow> handle list" where
  "get_preferred_vital_handles obj =
     (case obj of
        Person p \<Rightarrow>
          (case birth_ref p of None \<Rightarrow> [] | Some r \<Rightarrow> [r]) @
          (case death_ref p of None \<Rightarrow> [] | Some r \<Rightarrow> [r])
      | _ \<Rightarrow> [])"

text \<open>
  The loop of \<^verbatim>\<open>collect_event_data\<close>. An event is primary when the name of its type was not
  seen before in this loop and, for a birth or a death, its handle is one of the preferred
  ones.
\<close>

fun event_data_scan ::
  "'a event_type_meta_scheme \<Rightarrow> store \<Rightarrow> handle list \<Rightarrow> handle list \<Rightarrow> string list \<Rightarrow>
   event_row list \<Rightarrow> error + event_row list" where
  "event_data_scan lib db vital_handles [] seen_list bucket = Inr bucket"
| "event_data_scan lib db vital_handles (event_ref # refs) seen_list bucket =
     (case lookup (get_event_from_handle db) event_ref of
        Inl e \<Rightarrow> Inl e
      | Inr ev \<Rightarrow>
     (case get_citation_metrics db (citation_list ev) of
        Inl e \<Rightarrow> Inl e
      | Inr (total_count, total_confidence, highest_confidence) \<Rightarrow>
          if xml_str lib (etype ev) \<notin> set seen_list then
            event_data_scan lib db vital_handles refs (seen_list @ [xml_str lib (etype ev)])
              (bucket @
               [(ev, etype ev,
                 if etype ev \<in> {BIRTH, DEATH} then event_ref \<in> set vital_handles else True,
                 total_count, total_confidence, highest_confidence)])
          else
            event_data_scan lib db vital_handles refs seen_list
              (bucket @
               [(ev, etype ev, False, total_count, total_confidence, highest_confidence)])))"

definition collect_event_data ::
  "'a event_type_meta_scheme \<Rightarrow> store \<Rightarrow> primary_obj \<Rightarrow> handle list \<Rightarrow> event_row list \<Rightarrow>
   error + event_row list" where
  "collect_event_data lib db obj event_refs bucket =
     event_data_scan lib db (get_preferred_vital_handles obj) event_refs [] bucket"

fun collect_child_object_data ::
  "store \<Rightarrow> primary_obj \<Rightarrow> string \<Rightarrow> citation_base list \<Rightarrow> object_row list \<Rightarrow>
   error + object_row list" where
  "collect_child_object_data db obj label [] bucket = Inr bucket"
| "collect_child_object_data db obj label (child_obj # child_list) bucket =
     (case get_citation_metrics db (citation_list child_obj) of
        Inl e \<Rightarrow> Inl e
      | Inr (total_count, total_confidence, highest_confidence) \<Rightarrow>
          collect_child_object_data db obj label child_list
            (bucket @
             [(obj, child_obj, label, total_count, total_confidence, highest_confidence)]))"

text \<open>
  One guarded step of \<^verbatim>\<open>collect_object_data\<close>: \<^verbatim>\<open>if keyword in rank_list:
  collect_child_object_data(...)\<close>, after the steps before it.
\<close>

definition collect_when ::
  "bool \<Rightarrow> store \<Rightarrow> primary_obj \<Rightarrow> string \<Rightarrow> citation_base list \<Rightarrow>
   error + object_row list \<Rightarrow> error + object_row list" where
  "collect_when enabled db obj label child_list before =
     (case before of
        Inl e \<Rightarrow> Inl e
      | Inr bucket \<Rightarrow>
          if enabled then collect_child_object_data db obj label child_list bucket
          else Inr bucket)"

text \<open>
  \<^verbatim>\<open>collect_object_data\<close>, the steps in the order of the source (the innermost is the
  first). The flag \<^verbatim>\<open>person\<close> is set only inside the branch of \<^verbatim>\<open>"object"\<close>, so the names,
  associations and addresses of a person are read only when \<^verbatim>\<open>"object"\<close> is in the list too.
  The function is called on persons and families only.
\<close>

definition collect_object_data ::
  "store \<Rightarrow> primary_obj \<Rightarrow> string list \<Rightarrow> object_row list \<Rightarrow> error + object_row list" where
  "collect_object_data db obj rank_list bucket =
     (case obj of
        Person p \<Rightarrow>
          collect_when (''media'' \<in> set rank_list) db obj ''Media'' (media_list p)
         (collect_when (''object'' \<in> set rank_list \<and> ''addresses'' \<in> set rank_list) db obj
            ''Address'' (address_list p)
         (collect_when (''object'' \<in> set rank_list \<and> ''associations'' \<in> set rank_list) db obj
            ''Association'' (person_ref_list p)
         (collect_when (''attributes'' \<in> set rank_list) db obj ''Attribute'' (attribute_list p)
         (collect_when (''ordinances'' \<in> set rank_list) db obj ''Ordinance'' (lds_ord_list p)
         (collect_when (''object'' \<in> set rank_list \<and> ''names'' \<in> set rank_list) db obj
            ''Name'' (primary_name p # alternate_names p)
         (collect_when (''object'' \<in> set rank_list) db obj ''Person''
            [\<lparr>citation_list = citation_list p\<rparr>] (Inr bucket)))))))
      | Family f \<Rightarrow>
          collect_when (''media'' \<in> set rank_list) db obj ''Media'' (media_list f)
         (collect_when (''attributes'' \<in> set rank_list) db obj ''Attribute'' (attribute_list f)
         (collect_when (''ordinances'' \<in> set rank_list) db obj ''Ordinance'' (lds_ord_list f)
         (collect_when (''object'' \<in> set rank_list) db obj ''Family''
            [\<lparr>citation_list = citation_list f\<rparr>] (Inr bucket))))
      | Other \<Rightarrow> Inl AttributeError)"

text \<open>
  The loop of \<^verbatim>\<open>collect_person_data\<close> over the families of the parents: the row of the
  child reference that points to the person, if there is one.
\<close>

fun collect_child_refs ::
  "store \<Rightarrow> person \<Rightarrow> handle list \<Rightarrow> object_row list \<Rightarrow> error + object_row list" where
  "collect_child_refs db p [] object_bucket = Inr object_bucket"
| "collect_child_refs db p (h # handles) object_bucket =
     (case lookup (get_family_from_handle db) h of
        Inl e \<Rightarrow> Inl e
      | Inr f \<Rightarrow>
          (case (case find (\<lambda>child_reference. ref child_reference = handle p)
                        (child_ref_list f) of
                   None \<Rightarrow> Inr object_bucket
                 | Some child_reference \<Rightarrow>
                     collect_child_object_data db (Family f) ''Child''
                       [\<lparr>citation_list = citation_list child_reference\<rparr>] object_bucket) of
             Inl e \<Rightarrow> Inl e
           | Inr bucket \<Rightarrow> collect_child_refs db p handles bucket))"

text \<open>The loop of \<^verbatim>\<open>collect_person_data\<close> over the families of the person.\<close>

fun collect_families ::
  "'a event_type_meta_scheme \<Rightarrow> store \<Rightarrow> handle list \<Rightarrow> string list \<Rightarrow>
   object_row list \<times> event_row list \<Rightarrow> error + object_row list \<times> event_row list" where
  "collect_families lib db [] rank_list buckets = Inr buckets"
| "collect_families lib db (h # handles) rank_list buckets =
     (case lookup (get_family_from_handle db) h of
        Inl e \<Rightarrow> Inl e
      | Inr f \<Rightarrow>
     (case collect_object_data db (Family f) rank_list (fst buckets) of
        Inl e \<Rightarrow> Inl e
      | Inr object_bucket \<Rightarrow>
     (case collect_event_data lib db (Family f) (event_ref_list f) (snd buckets) of
        Inl e \<Rightarrow> Inl e
      | Inr events_bucket \<Rightarrow>
          collect_families lib db handles rank_list (object_bucket, events_bucket))))"

definition collect_person_data ::
  "'a event_type_meta_scheme \<Rightarrow> store \<Rightarrow> person \<Rightarrow> string list \<Rightarrow>
   object_row list \<times> event_row list \<Rightarrow> bool \<Rightarrow> error + object_row list \<times> event_row list"
  where
  "collect_person_data lib db p rank_list buckets include_family =
     (case collect_object_data db (Person p) rank_list (fst buckets) of
        Inl e \<Rightarrow> Inl e
      | Inr object_bucket \<Rightarrow>
     (case collect_event_data lib db (Person p) (event_ref_list p) (snd buckets) of
        Inl e \<Rightarrow> Inl e
      | Inr events_bucket \<Rightarrow>
          if include_family then
            (case (if ''object'' \<in> set rank_list
                   then collect_child_refs db p (parent_family_list p) object_bucket
                   else Inr object_bucket) of
               Inl e \<Rightarrow> Inl e
             | Inr object_bucket \<Rightarrow>
                 collect_families lib db (family_list p) rank_list (object_bucket, events_bucket))
          else Inr (object_bucket, events_bucket)))"

text \<open>
  The loop of \<^verbatim>\<open>collect_family_data\<close> over the children. The source compares the child
  reference itself with \<^verbatim>\<open>skip_handle\<close>, a handle or \<^verbatim>\<open>None\<close>, so the test never excludes a
  child.
\<close>

fun collect_children ::
  "'a event_type_meta_scheme \<Rightarrow> store \<Rightarrow> child_ref list \<Rightarrow> string list \<Rightarrow>
   object_row list \<times> event_row list \<Rightarrow> error + object_row list \<times> event_row list" where
  "collect_children lib db [] rank_list buckets = Inr buckets"
| "collect_children lib db (child_reference # children) rank_list buckets =
     (case lookup (get_person_from_handle db) (ref child_reference) of
        Inl e \<Rightarrow> Inl e
      | Inr child \<Rightarrow>
          (case collect_person_data lib db child rank_list buckets False of
             Inl e \<Rightarrow> Inl e
           | Inr buckets \<Rightarrow> collect_children lib db children rank_list buckets))"

text \<open>A spouse of the family: collected when the handle is set and is not the one to skip.\<close>

definition collect_spouse ::
  "'a event_type_meta_scheme \<Rightarrow> store \<Rightarrow> handle option \<Rightarrow> handle option \<Rightarrow> string list \<Rightarrow>
   object_row list \<times> event_row list \<Rightarrow> error + object_row list \<times> event_row list" where
  "collect_spouse lib db spouse_handle skip_handle rank_list buckets =
     (case spouse_handle of
        None \<Rightarrow> Inr buckets
      | Some h \<Rightarrow>
          if h \<noteq> [] \<and> Some h \<noteq> skip_handle then
            (case lookup (get_person_from_handle db) h of
               Inl e \<Rightarrow> Inl e
             | Inr spouse \<Rightarrow> collect_person_data lib db spouse rank_list buckets False)
          else Inr buckets)"

definition collect_family_data ::
  "'a event_type_meta_scheme \<Rightarrow> store \<Rightarrow> family \<Rightarrow> string list \<Rightarrow>
   object_row list \<times> event_row list \<Rightarrow> handle option \<Rightarrow>
   error + object_row list \<times> event_row list" where
  "collect_family_data lib db f rank_list buckets skip_handle =
     (case collect_object_data db (Family f) rank_list (fst buckets) of
        Inl e \<Rightarrow> Inl e
      | Inr object_bucket \<Rightarrow>
     (case collect_event_data lib db (Family f) (event_ref_list f) (snd buckets) of
        Inl e \<Rightarrow> Inl e
      | Inr events_bucket \<Rightarrow>
     (case (if ''spouses'' \<in> set rank_list then
              (case collect_spouse lib db (father_handle f) skip_handle rank_list
                      (object_bucket, events_bucket) of
                 Inl e \<Rightarrow> Inl e
               | Inr buckets \<Rightarrow>
                   collect_spouse lib db (mother_handle f) skip_handle rank_list buckets)
            else Inr (object_bucket, events_bucket)) of
        Inl e \<Rightarrow> Inl e
      | Inr buckets \<Rightarrow>
          if ''children'' \<in> set rank_list
          then collect_children lib db (child_ref_list f) rank_list buckets
          else Inr buckets)))"

definition collect_primary_object_data ::
  "'a event_type_meta_scheme \<Rightarrow> store \<Rightarrow> primary_obj \<Rightarrow> string list \<Rightarrow>
   error + object_row list \<times> event_row list" where
  "collect_primary_object_data lib db obj rank_list =
     (case obj of
        Person p \<Rightarrow> collect_person_data lib db p rank_list ([], []) True
      | Family f \<Rightarrow> collect_family_data lib db f rank_list ([], []) None
      | Other \<Rightarrow> Inr ([], []))"

text \<open>
  The loop of \<^verbatim>\<open>get_status_ranking\<close> over the events bucket. The state is \<open>(vital_count,
  confidence_alerts, found_list, total_rank_items, total_rank_confidence)\<close>. In the last test
  \<^verbatim>\<open>and\<close> binds tighter than \<^verbatim>\<open>or\<close>. The text of an alert is built from \<^verbatim>\<open>str(event_type)\<close>
  and, for a low confidence, the name of the level, given by \<open>get_confidence\<close> from outside the
  sources.
\<close>

type_synonym rank_state = "int \<times> (event \<times> string) list \<times> string list \<times> int \<times> int"

definition rank_event ::
  "'a event_type_meta_scheme \<Rightarrow> (int \<Rightarrow> string) \<Rightarrow> string list \<Rightarrow> string list \<Rightarrow> int \<Rightarrow>
   string list \<Rightarrow> event_row \<Rightarrow> rank_state \<Rightarrow> rank_state" where
  "rank_event lib get_confidence rank_list alert_list alert_minimum required_list event_data
     state =
     (case event_data of
        (ev, event_type, primary, total_count, dummy_total_confidence, highest_confidence) \<Rightarrow>
     (case state of
        (vital_count, confidence_alerts, found_list, total_rank_items,
         total_rank_confidence) \<Rightarrow>
     (let vital_count = (if event_type \<in> {BIRTH, DEATH} then vital_count - 1 else vital_count);
          event_name = xml_str lib event_type;
          confidence_alerts =
            (if primary \<and> event_name \<in> set alert_list then
               (if total_count = 0 then
                  confidence_alerts @ [(ev, type_str lib event_type @ '': '' @ ''Missing'')]
                else if highest_confidence < alert_minimum then
                  confidence_alerts @
                    [(ev, type_str lib event_type @ '': '' @ get_confidence highest_confidence)]
                else confidence_alerts)
             else confidence_alerts);
          found_list =
            (if primary \<and> event_name \<in> set required_list \<and> event_name \<notin> set found_list
             then found_list @ [event_name] else found_list)
      in if (primary \<and> event_name \<in> set rank_list) \<or> ''events'' \<in> set rank_list then
           (vital_count, confidence_alerts, found_list, total_rank_items + 1,
            total_rank_confidence + highest_confidence)
         else
           (vital_count, confidence_alerts, found_list, total_rank_items,
            total_rank_confidence))))"

fun rank_events ::
  "'a event_type_meta_scheme \<Rightarrow> (int \<Rightarrow> string) \<Rightarrow> string list \<Rightarrow> string list \<Rightarrow> int \<Rightarrow>
   string list \<Rightarrow> event_row list \<Rightarrow> rank_state \<Rightarrow> rank_state" where
  "rank_events lib get_confidence rank_list alert_list alert_minimum required_list [] state =
     state"
| "rank_events lib get_confidence rank_list alert_list alert_minimum required_list
     (event_data # events_bucket) state =
     rank_events lib get_confidence rank_list alert_list alert_minimum required_list
       events_bucket
       (rank_event lib get_confidence rank_list alert_list alert_minimum required_list
          event_data state)"

text \<open>The loop over the object bucket: one item and the highest confidence of each row.\<close>

fun rank_objects :: "object_row list \<Rightarrow> int \<times> int \<Rightarrow> int \<times> int" where
  "rank_objects [] totals = totals"
| "rank_objects (object_data # object_bucket) totals =
     rank_objects object_bucket
       (fst totals + 1, snd totals + snd (snd (snd (snd (snd object_data)))))"

definition get_status_ranking ::
  "'a event_type_meta_scheme \<Rightarrow> (int \<Rightarrow> string) \<Rightarrow> store \<Rightarrow> primary_obj \<Rightarrow>
   string list option \<Rightarrow> string list option \<Rightarrow> int \<Rightarrow> string list option \<Rightarrow>
   error + int \<times> int \<times> string list \<times> (event \<times> string) list" where
  "get_status_ranking lib get_confidence db obj rank_list alert_list alert_minimum
     required_list =
     (case collect_primary_object_data lib db obj (or_empty rank_list) of
        Inl e \<Rightarrow> Inl e
      | Inr (object_bucket, events_bucket) \<Rightarrow>
          (case rank_events lib get_confidence (or_empty rank_list) (or_empty alert_list)
                  alert_minimum (or_empty required_list) events_bucket (2, [], [], 0, 0) of
             (vital_count, confidence_alerts, found_list, total_rank_items,
              total_rank_confidence) \<Rightarrow>
               (case rank_objects object_bucket
                       (if vital_count > 0 then total_rank_items + vital_count
                        else total_rank_items,
                        total_rank_confidence) of
                  (rank_items, rank_confidence) \<Rightarrow>
                    Inr (rank_items, rank_confidence,
                         filter (\<lambda>item. item \<notin> set found_list) (or_empty required_list),
                         confidence_alerts))))"

declare add_relative.simps [simp del] add_family.simps [simp del]

section \<open>Reading a timeline\<close>

text \<open>The handles of the events of a list of entries, in order.\<close>

definition event_handles :: "(int \<times> timeline_item) list \<Rightarrow> handle list" where
  "event_handles entries = map (\<lambda>entry. handle (fst (snd entry))) entries"

text \<open>
  The two invariants of a run: no handle is entered twice and the entries are those the cache
  of seen events records; and, with both bounds configured, every key lies between them.
\<close>

definition no_duplicates :: "timeline_state \<Rightarrow> bool" where
  "no_duplicates self \<longleftrightarrow>
     distinct (cached_events self) \<and> event_handles (timeline self) = cached_events self"

definition within :: "int \<Rightarrow> int \<Rightarrow> timeline_state \<Rightarrow> bool" where
  "within lo hi self \<longleftrightarrow>
     (\<exists>lower. start_date self = Some lower \<and> sortval lower = lo) \<and>
     (\<exists>upper. end_date self = Some upper \<and> sortval upper = hi) \<and>
     (\<forall>entry \<in> set (timeline self). lo \<le> fst entry \<and> fst entry \<le> hi)"

section \<open>Example data\<close>

text \<open>A small table of event types, used to run the definitions on concrete inputs.\<close>

definition type_name :: "event_type \<Rightarrow> string" where
  "type_name t =
     (case t of
        BIRTH \<Rightarrow> ''Birth'' | DEATH \<Rightarrow> ''Death'' | BURIAL \<Rightarrow> ''Burial''
      | CREMATION \<Rightarrow> ''Cremation'' | CAUSE_DEATH \<Rightarrow> ''Cause Of Death''
      | PROBATE \<Rightarrow> ''Probate'' | MARRIAGE \<Rightarrow> ''Marriage'' | DIVORCE \<Rightarrow> ''Divorce''
      | OTHER s \<Rightarrow> s)"

definition example_library :: library where
  "example_library =
     \<lparr>get_standard_xml = [''Birth'', ''Death'', ''Marriage'', ''Divorce'', ''Christening'',
        ''Burial'', ''Census''],
      get_map = [1 \<mapsto> ''Marriage'', 7 \<mapsto> ''Divorce'', 12 \<mapsto> ''Birth'', 13 \<mapsto> ''Death'',
        19 \<mapsto> ''Burial'', 21 \<mapsto> ''Census'', 22 \<mapsto> ''Christening''],
      get_menu_standard_xml = [(''Life Events'', [12, 22, 13, 19]), (''Family'', [1, 7]),
        (''Other'', [21])],
      type_str = type_name,
      xml_str = type_name,
      is_birth_fallback = (\<lambda>t. t = OTHER ''Christening''),
      py_int = (\<lambda>s. map_option int (map_of
        [(''01'', 1), (''1'', 1), (''12'', 12), (''31'', 31), (''1900'', 1900), (''1950'', 1950)] s)),
      Date = (\<lambda>year month day. \<lparr>sortval = (year * 12 + month) * 31 + day\<rparr>),
      probably_alive_range = (\<lambda>person. (None, None)),
      get_one_relationship =
        (\<lambda>depth reference p.
           if handle p = ''P2'' then ''wife'' else if handle p = ''P3'' then ''son'' else [])\<rparr>"

definition example_event :: "handle \<Rightarrow> event_type \<Rightarrow> int \<Rightarrow> event" where
  "example_event h t key =
     \<lparr>citation_list = [], handle = h, etype = t, date = \<lparr>sortval = key\<rparr>, description = h\<rparr>"

definition example_person :: "handle \<Rightarrow> handle list \<Rightarrow> handle list \<Rightarrow> handle list \<Rightarrow> person" where
  "example_person h event_refs families parent_families =
     \<lparr>citation_list = [], handle = h, event_ref_list = event_refs, lds_ord_list = [],
      attribute_list = [], media_list = [], family_list = families,
      parent_family_list = parent_families, birth_ref = None, death_ref = None,
      primary_name = \<lparr>citation_list = []\<rparr>, alternate_names = [], person_ref_list = [],
      address_list = []\<rparr>"

definition example_family ::
  "handle \<Rightarrow> handle option \<Rightarrow> handle option \<Rightarrow> handle list \<Rightarrow> handle list \<Rightarrow> family" where
  "example_family h father mother children event_refs =
     \<lparr>citation_list = [], handle = h, event_ref_list = event_refs, lds_ord_list = [],
      attribute_list = [], media_list = [], father_handle = father, mother_handle = mother,
      child_ref_list = map (\<lambda>c. \<lparr>citation_list = [], ref = c\<rparr>) children\<rparr>"

definition example_store :: store where
  "example_store =
     \<lparr>get_person_from_handle =
        [''P1'' \<mapsto> example_person ''P1'' [''E1'', ''E2'', ''E3''] [''F1''] [],
         ''P2'' \<mapsto> example_person ''P2'' [''E6'', ''E7'', ''E8''] [''F1''] [],
         ''P3'' \<mapsto> example_person ''P3'' [''E5''] [] [''F1''],
         ''P4'' \<mapsto> example_person ''P4'' [''E9''] [] [''F2''],
         ''P8'' \<mapsto> example_person ''P8'' [] [] [],
         ''P9'' \<mapsto> example_person ''P9'' [''E1'', ''E4''] [] [],
         ''P10'' \<mapsto> example_person ''P10'' [''E16'', ''E5''] [] []],
      get_family_from_handle =
        [''F1'' \<mapsto> example_family ''F1'' (Some ''P1'') (Some ''P2'') [''P3''] [''E4''],
         ''F2'' \<mapsto> example_family ''F2'' None None [''P4''] [''E10'', ''E11'']],
      get_event_from_handle =
        [''E1'' \<mapsto> example_event ''E1'' BIRTH 1000,
         ''E2'' \<mapsto> example_event ''E2'' (OTHER ''Census'') 1500,
         ''E3'' \<mapsto> example_event ''E3'' DEATH 2000,
         ''E4'' \<mapsto> example_event ''E4'' MARRIAGE 0,
         ''E5'' \<mapsto> example_event ''E5'' BIRTH 1200,
         ''E6'' \<mapsto> example_event ''E6'' (OTHER ''Christening'') 1010,
         ''E7'' \<mapsto> example_event ''E7'' (OTHER ''Census'') 1500,
         ''E8'' \<mapsto> example_event ''E8'' BURIAL 1900,
         ''E9'' \<mapsto> example_event ''E9'' BIRTH 1,
         ''E10'' \<mapsto> example_event ''E10'' MARRIAGE 0,
         ''E11'' \<mapsto> example_event ''E11'' DIVORCE 0,
         ''E16'' \<mapsto> example_event ''E16'' (OTHER ''Christening'') 1300],
      get_citation_from_handle = Map.empty,
      get_event_types = [''Homestead'']\<rparr>"

definition example_timeline :: "timeline_state" where
  "example_timeline =
     \<lparr>timeline = [], timeline_type = None, reference_person = None,
      start_date = None, end_date = None, precision = 1, depth = 1,
      eligible_events = {''Birth'', ''Death'', ''Census''}, event_filters = [''Census''],
      eligible_relatives = [], eligible_relative_events = {''Birth'', ''Death''},
      relative_event_filters = [], cached_people = Map.empty, cached_events = []\<rparr>"

text \<open>A store with cited events, for the ranking.\<close>

definition example_confidence :: "int \<Rightarrow> string" where
  "example_confidence level =
     (if level = 0 then ''Very Low'' else if level = 1 then ''Low''
      else if level = 2 then ''Normal'' else if level = 3 then ''High'' else ''Very High'')"

definition cited_event :: "handle \<Rightarrow> event_type \<Rightarrow> int \<Rightarrow> handle list \<Rightarrow> event" where
  "cited_event h t key citations = (example_event h t key)\<lparr>citation_list := citations\<rparr>"

definition ranked_person ::
  "handle \<Rightarrow> handle list \<Rightarrow> handle option \<Rightarrow> handle option \<Rightarrow> handle list \<Rightarrow> person" where
  "ranked_person h event_refs birth death citations =
     (example_person h event_refs [] [])
       \<lparr>citation_list := citations, birth_ref := birth, death_ref := death\<rparr>"

definition ranking_store :: store where
  "ranking_store =
     \<lparr>get_person_from_handle = Map.empty,
      get_family_from_handle = Map.empty,
      get_event_from_handle =
        [''E1'' \<mapsto> cited_event ''E1'' BIRTH 1000 [],
         ''E2'' \<mapsto> cited_event ''E2'' (OTHER ''Census'') 1500 [],
         ''E12'' \<mapsto> cited_event ''E12'' BIRTH 1001 [''C1''],
         ''E13'' \<mapsto> cited_event ''E13'' BIRTH 1000 [''C1''],
         ''E14'' \<mapsto> cited_event ''E14'' DEATH 2000 [''C2'']],
      get_citation_from_handle =
        [''C1'' \<mapsto> \<lparr>confidence = 3\<rparr>, ''C2'' \<mapsto> \<lparr>confidence = 3\<rparr>,
         ''C3'' \<mapsto> \<lparr>confidence = 4\<rparr>],
      get_event_types = []\<rparr>"


section \<open>Properties of the filter preparation\<close>

lemma add_filter_types_raises:
  "\<exists>key \<in> set fs. key \<notin> set std \<and> key \<notin> set cus \<and> key \<notin> set EVENT_CATEGORIES \<Longrightarrow>
   \<exists>key \<in> set fs. key \<notin> set std \<and> key \<notin> set cus \<and> key \<notin> set EVENT_CATEGORIES \<and>
      add_filter_types std cus fs el = Inl (ValueError (key @ '' is not a valid event or event category''))"
  by (induction fs arbitrary: el) auto

lemma add_filter_types_returns:
  "\<forall>key \<in> set fs. key \<in> set std \<or> key \<in> set cus \<or> key \<in> set EVENT_CATEGORIES \<Longrightarrow>
   \<exists>el'. add_filter_types std cus fs el = Inr el'"
  by (induction fs arbitrary: el) auto

lemma add_filter_types_keeps:
  "add_filter_types std cus fs el = Inr el' \<Longrightarrow> el \<subseteq> el'"
  by (induction fs arbitrary: el) (auto split: if_splits)

lemma add_mapped_ids_keeps: "el \<subseteq> add_mapped_ids table ids el"
proof (induction ids arbitrary: el)
  case Nil
  then show ?case by simp
next
  case (Cons event_id ids)
  show ?case
  proof (cases "table event_id")
    case None
    then show ?thesis using Cons.IH [of el] by simp
  next
    case (Some name)
    then show ?thesis using Cons.IH [of "insert name el"] by auto
  qed
qed

lemma add_categories_keeps: "el \<subseteq> add_categories table fs entries el"
proof (induction entries arbitrary: el)
  case Nil
  then show ?case by simp
next
  case (Cons entry entries)
  have "el \<subseteq> add_mapped_ids table (snd entry) el" by (rule add_mapped_ids_keeps)
  also have "\<dots> \<subseteq> add_categories table fs entries (add_mapped_ids table (snd entry) el)"
    by (rule Cons.IH)
  finally show ?case using Cons.IH [of el] by (simp add: Let_def)
qed

lemma prepare_eligible_events_vital:
  "prepare_eligible_events meta cus fs = Inr el \<Longrightarrow> ''Birth'' \<in> el \<and> ''Death'' \<in> el"
  using add_filter_types_keeps add_categories_keeps
  by (fastforce simp: prepare_eligible_events_def Let_def split: sum.splits if_splits)


section \<open>Properties of the merge\<close>

lemma merge_preserves:
  assumes "P self"
    and "\<And>s key ev. P s \<Longrightarrow> handle ev \<notin> set (cached_events s) \<Longrightarrow>
           (case start_date s of None \<Rightarrow> True | Some bound \<Rightarrow> sortval bound \<le> key) \<Longrightarrow>
           (case end_date s of None \<Rightarrow> True | Some bound \<Rightarrow> key \<le> sortval bound) \<Longrightarrow>
           P (s\<lparr>timeline := timeline s @ [(key, (ev, p, relation))],
                cached_events := cached_events s @ [handle ev]\<rparr>)"
  shows "P (merge_eligible_events lib self p keyed relation relative birth death)"
  using assms(1)
proof (induction keyed arbitrary: self)
  case Nil
  then show ?case by simp
next
  case (Cons keyed_event rest)
  show ?case
    using Cons.IH [OF Cons.prems]
      Cons.IH [OF assms(2) [OF Cons.prems, of "snd keyed_event" "fst keyed_event"]]
    by (auto split: option.splits)
qed

lemma merge_unchanged:
  "start_date (merge_eligible_events lib self p keyed relation relative birth death) = start_date self \<and>
   end_date (merge_eligible_events lib self p keyed relation relative birth death) = end_date self \<and>
   reference_person (merge_eligible_events lib self p keyed relation relative birth death) = reference_person self \<and>
   eligible_relatives (merge_eligible_events lib self p keyed relation relative birth death) = eligible_relatives self"
  by (rule merge_preserves [where P = "\<lambda>s. start_date s = start_date self \<and> end_date s = end_date self \<and> reference_person s = reference_person self \<and> eligible_relatives s = eligible_relatives self"]) auto

lemma merge_no_duplicates:
  "no_duplicates self \<Longrightarrow>
   no_duplicates (merge_eligible_events lib self p keyed relation relative birth death)"
  by (rule merge_preserves) (auto simp: no_duplicates_def event_handles_def)

lemma merge_within:
  "within lo hi self \<Longrightarrow>
   within lo hi (merge_eligible_events lib self p keyed relation relative birth death)"
  by (rule merge_preserves) (auto simp: within_def)

section \<open>Properties of a run\<close>


lemma add_person_preserves:
  assumes merge: "\<And>lib s p keyed rel r b d. P s \<Longrightarrow> P (merge_eligible_events lib s p keyed rel r b d)"
    and cache: "\<And>s p b. P s \<Longrightarrow> P (cache_person s p b)"
  shows "add_person lib db self h = Inr s' \<Longrightarrow> P self \<Longrightarrow> P s'"
  by (auto simp: add_person_def split: sum.splits intro!: merge cache)

lemma add_people_preserves:
  assumes merge: "\<And>lib s p keyed rel r b d. P s \<Longrightarrow> P (merge_eligible_events lib s p keyed rel r b d)"
    and cache: "\<And>s p b. P s \<Longrightarrow> P (cache_person s p b)"
  shows "add_people lib db self cs = Inr s' \<Longrightarrow> P self \<Longrightarrow> P s'"
proof (induction cs arbitrary: self)
  case Nil
  then show ?case by simp
next
  case (Cons c cs)
  from Cons.prems(1) obtain self1 where
    s1: "add_person lib db self (ref c) = Inr self1"
    and s2: "add_people lib db self1 cs = Inr s'"
    by (auto split: sum.splits)
  have "P self1"
    using s1 Cons.prems(2) add_person_preserves [where P = P, OF merge cache] by blast
  then show ?case using s2 Cons.IH by blast
qed

lemma relatives_preserve:
  assumes merge: "\<And>lib s p keyed rel r b d. P s \<Longrightarrow> P (merge_eligible_events lib s p keyed rel r b d)"
    and cache: "\<And>s p b. P s \<Longrightarrow> P (cache_person s p b)"
  shows "add_relative lib db self h anc off = Inr s' \<Longrightarrow> P self \<Longrightarrow> P s'"
    and "add_matching lib db self q rel rels anc off = Inr s' \<Longrightarrow> P self \<Longrightarrow> P s'"
    and "add_spouse_families lib db self hs off = Inr s' \<Longrightarrow> P self \<Longrightarrow> P s'"
    and "add_children lib db self cs off = Inr s' \<Longrightarrow> P self \<Longrightarrow> P s'"
    and "add_parent_families lib db self hs anc = Inr s' \<Longrightarrow> P self \<Longrightarrow> P s'"
    and "add_family lib db self h anc off ic = Inr s' \<Longrightarrow> P self \<Longrightarrow> P s'"
proof (induction lib db self h anc off and lib db self q rel rels anc off and lib db self hs off
    and lib db self cs off and lib db self hs anc and lib db self h anc off ic
    arbitrary: s' and s' and s' and s' and s' and s'
    rule: add_relative_add_matching_add_spouse_families_add_children_add_parent_families_add_family.induct)
  case (1 lib db self h ancestors offspring)
  from "1.prems" show ?case
    by (subst (asm) add_relative.simps) (auto split: if_splits sum.splits dest: "1.IH")
next
  case (2 lib db self p relationship ancestors offspring)
  then show ?case by simp
next
  case (3 lib db self p relationship relative relatives ancestors offspring)
  show ?case
  proof (cases "sublist relative relationship")
    case False
    with "3.prems" "3.IH"(4) show ?thesis by auto
  next
    case True
    from True "3.prems"(1) obtain keyed birth death self1 self2 where
      ex: "extract_person_events lib db p = Inr (keyed, birth, death)"
      and s1: "(if offspring > 0
               then add_spouse_families lib db
                      (cache_person
                         (merge_eligible_events lib self p keyed relationship True birth death)
                         p birth)
                      (family_list p) offspring
               else Inr (cache_person
                         (merge_eligible_events lib self p keyed relationship True birth death)
                         p birth)) = Inr self1"
      and s2: "(if ancestors > 1 \<and>
                  (sublist ''father'' relationship \<or> sublist ''mother'' relationship)
               then add_parent_families lib db self1 (parent_family_list p) ancestors
               else Inr self1) = Inr self2"
      and s3: "add_matching lib db self2 p relationship relatives ancestors offspring = Inr s'"
      by (auto split: sum.splits)
    have P0: "P (cache_person
                         (merge_eligible_events lib self p keyed relationship True birth death)
                         p birth)"
      by (intro merge cache "3.prems")
    have P1: "P self1"
      using s1 P0 "3.IH"(1) [OF True ex refl refl] by (auto split: if_splits)
    have P2: "P self2"
      using s2 P1 "3.IH"(2) [OF True ex refl refl s1] by (auto split: if_splits)
    show ?thesis
      using s3 P2 "3.IH"(3) [OF True ex refl refl s1 s2] by auto
  qed
next
  case (4 lib db self offspring)
  then show ?case by simp
next
  case (5 lib db self family_handle handles offspring)
  from "5.prems"(1) obtain f self1 self2 self3 where
    f: "lookup (get_family_from_handle db) family_handle = Inr f"
    and s1: "(case new_parent self (father_handle f) of
              None \<Rightarrow> Inr self
            | Some father \<Rightarrow> add_relative lib db self father 1 (offspring - 1)) = Inr self1"
    and s2: "(case new_parent self1 (mother_handle f) of
              None \<Rightarrow> Inr self1
            | Some mother \<Rightarrow> add_relative lib db self1 mother 1 (offspring - 1)) = Inr self2"
    and s3: "add_children lib db self2 (child_ref_list f) (offspring - 1) = Inr self3"
    and s4: "add_spouse_families lib db self3 handles offspring = Inr s'"
    by (auto split: sum.splits)
  have P1: "P self1"
    using s1 "5.prems"(2) "5.IH"(1) [OF f] by (auto split: option.splits)
  have P2: "P self2"
    using s2 P1 "5.IH"(2) [OF f s1] by (auto split: option.splits)
  have P3: "P self3"
    using s3 P2 "5.IH"(3) [OF f s1 s2] by auto
  show ?case
    using s4 P3 "5.IH"(4) [OF f s1 s2 s3] by auto
next
  case (6 lib db self offspring)
  then show ?case by simp
next
  case (7 lib db self child children offspring)
  from "7.prems"(1) obtain self1 where
    s1: "(if ref child \<notin> dom (cached_people self)
            then add_relative lib db self (ref child) 1 offspring
            else Inr self) = Inr self1"
    and s2: "add_children lib db self1 children offspring = Inr s'"
    by (auto split: sum.splits)
  have P1: "P self1"
    using s1 "7.prems"(2) "7.IH"(1) by (auto split: if_splits)
  show ?case using s2 P1 "7.IH"(2) [OF s1] by auto
next
  case (8 lib db self ancestors)
  then show ?case by simp
next
  case (9 lib db self family_handle handles ancestors)
  from "9.prems"(1) obtain self1 where
    s1: "add_family lib db self family_handle (ancestors - 1) 0 False = Inr self1"
    and s2: "add_parent_families lib db self1 handles ancestors = Inr s'"
    by (auto split: sum.splits)
  show ?case using s1 s2 "9.prems"(2) "9.IH"(1) "9.IH"(2) [OF s1] by auto
next
  case (10 lib db self h ancestors offspring include_children)
  from "10.prems"(1) obtain f where
    f: "lookup (get_family_from_handle db) h = Inr f"
    by (subst (asm) add_family.simps) (auto split: sum.splits)
  show ?case
  proof (cases "reference_person self \<noteq> None")
    case True
    from "10.prems"(1) f True obtain self1 self2 where
      s1: "(case new_parent self (father_handle f) of
                     None \<Rightarrow> Inr self
                   | Some father \<Rightarrow> add_relative lib db self father ancestors 1) = Inr self1"
      and s2: "(case new_parent self1 (mother_handle f) of
                     None \<Rightarrow> Inr self1
                   | Some mother \<Rightarrow> add_relative lib db self1 mother ancestors 1) = Inr self2"
      and s3: "(if include_children
                 then add_children lib db self2 (child_ref_list f) offspring
                 else Inr self2) = Inr s'"
      by (subst (asm) add_family.simps) (auto split: sum.splits)
    have P1: "P self1"
      using s1 "10.prems"(2) "10.IH"(1) [OF f True] by (auto split: option.splits)
    have P2: "P self2"
      using s2 P1 "10.IH"(2) [OF f True s1] by (auto split: option.splits)
    show ?thesis
      using s3 P2 "10.IH"(3) [OF f True s1 s2] by (auto split: if_splits)
  next
    case False
    from "10.prems"(1) f False obtain self1 self2 where
      s1: "(case father_handle f of
                     None \<Rightarrow> Inr self
                   | Some father \<Rightarrow>
                       if father \<noteq> [] then add_person lib db self father else Inr self) = Inr self1"
      and s2: "(case mother_handle f of
                     None \<Rightarrow> Inr self1
                   | Some mother \<Rightarrow>
                       if mother \<noteq> [] then add_person lib db self1 mother else Inr self1) = Inr self2"
      and s3: "add_people lib db self2 (child_ref_list f) = Inr s'"
      by (subst (asm) add_family.simps) (auto split: sum.splits)
    have P1: "P self1"
      using s1 "10.prems"(2) add_person_preserves [where P = P, OF merge cache]
      by (auto split: option.splits if_splits)
    have P2: "P self2"
      using s2 P1 add_person_preserves [where P = P, OF merge cache]
      by (auto split: option.splits if_splits)
    show ?thesis
      using s3 P2 add_people_preserves [where P = P, OF merge cache] by blast
  qed
qed

lemma add_families_preserves:
  assumes merge: "\<And>lib s p keyed rel r b d. P s \<Longrightarrow> P (merge_eligible_events lib s p keyed rel r b d)"
    and cache: "\<And>s p b. P s \<Longrightarrow> P (cache_person s p b)"
  shows "add_families lib db self hs anc off = Inr s' \<Longrightarrow> P self \<Longrightarrow> P s'"
proof (induction hs arbitrary: self)
  case Nil
  then show ?case by simp
next
  case (Cons h hs)
  from Cons.prems(1) obtain self1 where
    s1: "add_family lib db self h anc off True = Inr self1"
    and s2: "add_families lib db self1 hs anc off = Inr s'"
    by (auto split: sum.splits)
  have "P self1"
    using s1 Cons.prems(2) relatives_preserve(6) [where P = P, OF merge cache] by blast
  then show ?case using s2 Cons.IH by blast
qed

lemma do_calls_preserves:
  assumes merge: "\<And>lib s p keyed rel r b d. P s \<Longrightarrow> P (merge_eligible_events lib s p keyed rel r b d)"
    and cache: "\<And>s p b. P s \<Longrightarrow> P (cache_person s p b)"
  shows "do_calls lib db self cs = Inr s' \<Longrightarrow> P self \<Longrightarrow> P s'"
proof (induction cs arbitrary: self)
  case Nil
  then show ?case by simp
next
  case (Cons c cs)
  from Cons.prems(1) obtain self1 where
    s1: "do_call lib db self c = Inr self1"
    and s2: "do_calls lib db self1 cs = Inr s'"
    by (auto split: sum.splits)
  have "P self1"
    using s1 Cons.prems(2) relatives_preserve(1,6) [where P = P, OF merge cache]
      add_person_preserves [where P = P, OF merge cache]
    by (cases c) auto
  then show ?case using s2 Cons.IH by blast
qed

lemma set_person_establishes:
  assumes merge: "\<And>lib s p keyed rel r b d. P s \<Longrightarrow> P (merge_eligible_events lib s p keyed rel r b d)"
    and cache: "\<And>s p b. P s \<Longrightarrow> P (cache_person s p b)"
    and reset: "P (self\<lparr>timeline := [], timeline_type := Some ''person'',
                          cached_people := Map.empty, cached_events := []\<rparr>)"
    and refer: "\<And>s r d. P s \<Longrightarrow> P (s\<lparr>reference_person := r, depth := d\<rparr>)"
    and bounds: "\<And>s p keyed b d s'. P s \<Longrightarrow> default_bounds lib s p keyed b d = Inr s' \<Longrightarrow> P s'"
  shows "set_person lib db self h anc off = Inr s' \<Longrightarrow> P s'"
proof -
  assume run: "set_person lib db self h anc off = Inr s'"
  from run obtain p keyed birth death where
    p: "lookup (get_person_from_handle db) h = Inr p"
    and ex: "extract_person_events lib db p = Inr (keyed, birth, death)"
    by (auto simp: set_person_def split: sum.splits)
  let ?s1 = "cache_person
                 (merge_eligible_events lib
                    (self\<lparr>timeline := [], timeline_type := Some ''person'',
                          cached_people := Map.empty, cached_events := []\<rparr>)
                    p keyed ''self'' False birth death)
                 p birth"
  have P1: "P ?s1" by (intro cache merge reset)
  show "P s'"
  proof (cases "anc \<noteq> 0 \<or> off \<noteq> 0")
    case False
    with run p ex have "s' = ?s1" by (simp add: set_person_def Let_def)
    with P1 show ?thesis by simp
  next
    case True
    with run p ex obtain self2 self3 where
      s2: "default_bounds lib (?s1\<lparr>reference_person := Some p, depth := max anc off + 1\<rparr>)
             p keyed birth death = Inr self2"
      and s3: "add_families lib db self2 (parent_family_list p) anc 0 = Inr self3"
      and s4: "add_families lib db self3 (family_list p) anc off = Inr s'"
      by (auto simp: set_person_def Let_def split: sum.splits)
    have "P self2" using s2 bounds refer P1 by blast
    then have "P self3" using s3 add_families_preserves [where P = P, OF merge cache] by blast
    then show ?thesis using s4 add_families_preserves [where P = P, OF merge cache] by blast
  qed
qed

lemma run_establishes:
  assumes merge: "\<And>lib s p keyed rel r b d. P s \<Longrightarrow> P (merge_eligible_events lib s p keyed rel r b d)"
    and cache: "\<And>s p b. P s \<Longrightarrow> P (cache_person s p b)"
    and reset: "\<And>kind. P (self\<lparr>timeline := [], timeline_type := kind,
                          cached_people := Map.empty, cached_events := []\<rparr>)"
    and refer: "\<And>s r d. P s \<Longrightarrow> P (s\<lparr>reference_person := r, depth := d\<rparr>)"
    and bounds: "\<And>s p keyed b d s'. P s \<Longrightarrow> default_bounds lib s p keyed b d = Inr s' \<Longrightarrow> P s'"
  shows "run lib db self start calls = Inr s' \<Longrightarrow> P s'"
proof (cases start)
  case (Set_person h anc off)
  assume "run lib db self start calls = Inr s'"
  with Set_person obtain self1 where
    s1: "set_person lib db self h anc off = Inr self1"
    and s2: "do_calls lib db self1 calls = Inr s'"
    by (auto split: sum.splits)
  have "P self1"
  proof (rule set_person_establishes [where P = P, OF _ _ _ _ _ s1])
    show "\<And>lib s p keyed rel r b d. P s \<Longrightarrow> P (merge_eligible_events lib s p keyed rel r b d)"
      by (rule merge)
    show "\<And>s p b. P s \<Longrightarrow> P (cache_person s p b)" by (rule cache)
    show "P (self\<lparr>timeline := [], timeline_type := Some ''person'',
                          cached_people := Map.empty, cached_events := []\<rparr>)"
      by (rule reset)
    show "\<And>s r d. P s \<Longrightarrow> P (s\<lparr>reference_person := r, depth := d\<rparr>)" by (rule refer)
    show "\<And>s p keyed b d s'. P s \<Longrightarrow> default_bounds lib s p keyed b d = Inr s' \<Longrightarrow> P s'"
      by (rule bounds)
  qed
  then show ?thesis using s2 do_calls_preserves [where P = P, OF merge cache] by blast
next
  case (Set_family h anc off)
  assume "run lib db self start calls = Inr s'"
  with Set_family obtain self1 where
    s1: "set_family lib db self h anc off = Inr self1"
    and s2: "do_calls lib db self1 calls = Inr s'"
    by (auto split: sum.splits)
  have "P self1"
    using s1 reset [of "Some ''family''"] relatives_preserve(6) [where P = P, OF merge cache]
    unfolding set_family_def by blast
  then show ?thesis using s2 do_calls_preserves [where P = P, OF merge cache] by blast
qed

lemma cache_person_fields:
  "timeline (cache_person s p b) = timeline s"
  "cached_events (cache_person s p b) = cached_events s"
  "start_date (cache_person s p b) = start_date s"
  "end_date (cache_person s p b) = end_date s"
  by (simp_all add: cache_person_def)

lemma default_bounds_fields:
  "default_bounds lib s p keyed b d = Inr s' \<Longrightarrow>
     timeline s' = timeline s \<and> cached_events s' = cached_events s"
  by (auto simp: default_bounds_def Let_def split: if_splits option.splits sum.splits)

lemma default_bounds_configured:
  "start_date s \<noteq> None \<Longrightarrow> end_date s \<noteq> None \<Longrightarrow> default_bounds lib s p keyed b d = Inr s"
  by (auto simp: default_bounds_def Let_def)

lemma run_no_duplicates:
  "run lib db self start calls = Inr s' \<Longrightarrow> no_duplicates s'"
proof (rule run_establishes [where P = no_duplicates])
  show "\<And>lib s p keyed rel r b d. no_duplicates s \<Longrightarrow>
          no_duplicates (merge_eligible_events lib s p keyed rel r b d)"
    by (rule merge_no_duplicates)
  show "\<And>s p b. no_duplicates s \<Longrightarrow> no_duplicates (cache_person s p b)"
    by (simp add: no_duplicates_def cache_person_fields)
  show "\<And>kind. no_duplicates (self\<lparr>timeline := [], timeline_type := kind,
                          cached_people := Map.empty, cached_events := []\<rparr>)"
    by (simp add: no_duplicates_def event_handles_def)
  show "\<And>s r d. no_duplicates s \<Longrightarrow> no_duplicates (s\<lparr>reference_person := r, depth := d\<rparr>)"
    by (simp add: no_duplicates_def)
  show "\<And>s p keyed b d s'. no_duplicates s \<Longrightarrow> default_bounds lib s p keyed b d = Inr s' \<Longrightarrow>
          no_duplicates s'"
    using default_bounds_fields by (fastforce simp: no_duplicates_def)
qed

lemma run_within:
  assumes "start_date self = Some first" "end_date self = Some final"
  shows "run lib db self start calls = Inr s' \<Longrightarrow> within (sortval first) (sortval final) s'"
proof (rule run_establishes [where P = "within (sortval first) (sortval final)"])
  show "\<And>lib s p keyed rel r b d. within (sortval first) (sortval final) s \<Longrightarrow>
          within (sortval first) (sortval final) (merge_eligible_events lib s p keyed rel r b d)"
    by (rule merge_within)
  show "\<And>s p b. within (sortval first) (sortval final) s \<Longrightarrow>
          within (sortval first) (sortval final) (cache_person s p b)"
    by (simp add: within_def cache_person_fields)
  show "\<And>kind. within (sortval first) (sortval final)
          (self\<lparr>timeline := [], timeline_type := kind,
                          cached_people := Map.empty, cached_events := []\<rparr>)"
    using assms by (simp add: within_def)
  show "\<And>s r d. within (sortval first) (sortval final) s \<Longrightarrow>
          within (sortval first) (sortval final) (s\<lparr>reference_person := r, depth := d\<rparr>)"
    by (simp add: within_def)
  show "\<And>s p keyed b d s'. within (sortval first) (sortval final) s \<Longrightarrow>
          default_bounds lib s p keyed b d = Inr s' \<Longrightarrow> within (sortval first) (sortval final) s'"
    using default_bounds_configured by (fastforce simp: within_def)
qed

section \<open>Properties of the extraction\<close>

lemma person_event_scan_step:
  "person_event_scan lib db (r # refs) (b, bf, d, df, evs0) = Inr result \<Longrightarrow>
   \<exists>ev. get_event_from_handle db r = Some ev \<and>
     person_event_scan lib db refs
       (if is_birth (etype ev) then Some ev else b,
        if (if is_birth (etype ev) then Some ev else b) = None \<and> bf = None \<and>
           is_birth_fallback lib (etype ev) then Some ev else bf,
        if is_death (etype ev) then Some ev else d,
        if (if is_death (etype ev) then Some ev else d) = None \<and> df = None \<and>
           etype ev \<in> set DEATH_INDICATORS then Some ev else df,
        evs0 @ [ev]) = Inr result"
  by (auto simp: lookup_def Let_def split: option.splits)

lemma person_event_scan_events:
  "person_event_scan lib db refs (b, bf, d, df, evs0) = Inr (b', bf', d', df', evs') \<Longrightarrow>
   \<exists>new. those (map (get_event_from_handle db) refs) = Some new \<and> evs' = evs0 @ new"
proof (induction refs arbitrary: b bf d df evs0)
  case Nil
  then show ?case by simp
next
  case (Cons r refs)
  from person_event_scan_step [OF Cons.prems] obtain ev b1 bf1 d1 df1 where
    ev: "get_event_from_handle db r = Some ev"
    and step: "person_event_scan lib db refs (b1, bf1, d1, df1, evs0 @ [ev]) =
      Inr (b', bf', d', df', evs')"
    by blast
  from Cons.IH [OF step] obtain new where
    "those (map (get_event_from_handle db) refs) = Some new" "evs' = (evs0 @ [ev]) @ new"
    by blast
  with ev show ?case by simp
qed

lemma person_event_scan_birth_member:
  "person_event_scan lib db refs (b, bf, d, df, evs0) = Inr (b', bf', d', df', evs') \<Longrightarrow>
   (\<forall>x. b = Some x \<or> bf = Some x \<longrightarrow> x \<in> set evs0) \<Longrightarrow>
   (\<forall>x. b' = Some x \<or> bf' = Some x \<longrightarrow> x \<in> set evs')"
proof (induction refs arbitrary: b bf d df evs0)
  case Nil
  then show ?case by simp
next
  case (Cons r refs)
  from person_event_scan_step [OF Cons.prems(1)] obtain ev where
    step: "person_event_scan lib db refs
       (if is_birth (etype ev) then Some ev else b,
        if (if is_birth (etype ev) then Some ev else b) = None \<and> bf = None \<and>
           is_birth_fallback lib (etype ev) then Some ev else bf,
        if is_death (etype ev) then Some ev else d,
        if (if is_death (etype ev) then Some ev else d) = None \<and> df = None \<and>
           etype ev \<in> set DEATH_INDICATORS then Some ev else df,
        evs0 @ [ev]) = Inr (b', bf', d', df', evs')"
    by blast
  show ?case
    by (rule Cons.IH [OF step]) (use Cons.prems(2) in \<open>auto split: if_splits\<close>)
qed

lemma person_event_scan_death_member:
  "person_event_scan lib db refs (b, bf, d, df, evs0) = Inr (b', bf', d', df', evs') \<Longrightarrow>
   (\<forall>x. d = Some x \<or> df = Some x \<longrightarrow> x \<in> set evs0) \<Longrightarrow>
   (\<forall>x. d' = Some x \<or> df' = Some x \<longrightarrow> x \<in> set evs')"
proof (induction refs arbitrary: b bf d df evs0)
  case Nil
  then show ?case by simp
next
  case (Cons r refs)
  from person_event_scan_step [OF Cons.prems(1)] obtain ev where
    step: "person_event_scan lib db refs
       (if is_birth (etype ev) then Some ev else b,
        if (if is_birth (etype ev) then Some ev else b) = None \<and> bf = None \<and>
           is_birth_fallback lib (etype ev) then Some ev else bf,
        if is_death (etype ev) then Some ev else d,
        if (if is_death (etype ev) then Some ev else d) = None \<and> df = None \<and>
           etype ev \<in> set DEATH_INDICATORS then Some ev else df,
        evs0 @ [ev]) = Inr (b', bf', d', df', evs')"
    by blast
  show ?case
    by (rule Cons.IH [OF step]) (use Cons.prems(2) in \<open>auto split: if_splits\<close>)
qed

lemma person_event_scan_birth_kinds:
  "person_event_scan lib db refs (b, bf, d, df, evs0) = Inr (b', bf', d', df', evs') \<Longrightarrow>
   (\<forall>x. b = Some x \<longrightarrow> is_birth (etype x)) \<and> (\<forall>x. bf = Some x \<longrightarrow> is_birth_fallback lib (etype x)) \<Longrightarrow>
   (\<forall>x. b' = Some x \<longrightarrow> is_birth (etype x)) \<and> (\<forall>x. bf' = Some x \<longrightarrow> is_birth_fallback lib (etype x))"
proof (induction refs arbitrary: b bf d df evs0)
  case Nil
  then show ?case by simp
next
  case (Cons r refs)
  from person_event_scan_step [OF Cons.prems(1)] obtain ev where
    step: "person_event_scan lib db refs
       (if is_birth (etype ev) then Some ev else b,
        if (if is_birth (etype ev) then Some ev else b) = None \<and> bf = None \<and>
           is_birth_fallback lib (etype ev) then Some ev else bf,
        if is_death (etype ev) then Some ev else d,
        if (if is_death (etype ev) then Some ev else d) = None \<and> df = None \<and>
           etype ev \<in> set DEATH_INDICATORS then Some ev else df,
        evs0 @ [ev]) = Inr (b', bf', d', df', evs')"
    by blast
  show ?case
    by (rule Cons.IH [OF step]) (use Cons.prems(2) in \<open>auto split: if_splits\<close>)
qed

lemma person_event_scan_death_kinds:
  "person_event_scan lib db refs (b, bf, d, df, evs0) = Inr (b', bf', d', df', evs') \<Longrightarrow>
   (\<forall>x. d = Some x \<longrightarrow> is_death (etype x)) \<and> (\<forall>x. df = Some x \<longrightarrow> etype x \<in> set DEATH_INDICATORS) \<Longrightarrow>
   (\<forall>x. d' = Some x \<longrightarrow> is_death (etype x)) \<and> (\<forall>x. df' = Some x \<longrightarrow> etype x \<in> set DEATH_INDICATORS)"
proof (induction refs arbitrary: b bf d df evs0)
  case Nil
  then show ?case by simp
next
  case (Cons r refs)
  from person_event_scan_step [OF Cons.prems(1)] obtain ev where
    step: "person_event_scan lib db refs
       (if is_birth (etype ev) then Some ev else b,
        if (if is_birth (etype ev) then Some ev else b) = None \<and> bf = None \<and>
           is_birth_fallback lib (etype ev) then Some ev else bf,
        if is_death (etype ev) then Some ev else d,
        if (if is_death (etype ev) then Some ev else d) = None \<and> df = None \<and>
           etype ev \<in> set DEATH_INDICATORS then Some ev else df,
        evs0 @ [ev]) = Inr (b', bf', d', df', evs')"
    by blast
  show ?case
    by (rule Cons.IH [OF step]) (use Cons.prems(2) in \<open>auto split: if_splits\<close>)
qed

lemma person_event_scan_birth_found:
  "person_event_scan lib db refs (b, bf, d, df, evs0) = Inr (b', bf', d', df', evs') \<Longrightarrow>
   those (map (get_event_from_handle db) refs) = Some new \<Longrightarrow>
   ((b \<noteq> None \<or> (\<exists>e \<in> set new. is_birth (etype e))) \<longrightarrow> b' \<noteq> None) \<and>
   ((b \<noteq> None \<or> bf \<noteq> None \<or> (\<exists>e \<in> set new. is_birth_fallback lib (etype e))) \<longrightarrow> b' \<noteq> None \<or> bf' \<noteq> None)"
proof (induction refs arbitrary: b bf d df evs0 new)
  case Nil
  then show ?case by simp
next
  case (Cons r refs)
  from person_event_scan_step [OF Cons.prems(1)] obtain ev where
    ev: "get_event_from_handle db r = Some ev" and
    step: "person_event_scan lib db refs
       (if is_birth (etype ev) then Some ev else b,
        if (if is_birth (etype ev) then Some ev else b) = None \<and> bf = None \<and>
           is_birth_fallback lib (etype ev) then Some ev else bf,
        if is_death (etype ev) then Some ev else d,
        if (if is_death (etype ev) then Some ev else d) = None \<and> df = None \<and>
           etype ev \<in> set DEATH_INDICATORS then Some ev else df,
        evs0 @ [ev]) = Inr (b', bf', d', df', evs')"
    by blast
  from Cons.prems(2) ev obtain rest where
    rest: "those (map (get_event_from_handle db) refs) = Some rest" and new: "new = ev # rest"
    by (auto split: option.splits)
  from Cons.IH [OF step rest] show ?case
    unfolding new by (auto split: if_splits)
qed

lemma person_event_scan_death_found:
  "person_event_scan lib db refs (b, bf, d, df, evs0) = Inr (b', bf', d', df', evs') \<Longrightarrow>
   those (map (get_event_from_handle db) refs) = Some new \<Longrightarrow>
   ((d \<noteq> None \<or> (\<exists>e \<in> set new. is_death (etype e))) \<longrightarrow> d' \<noteq> None) \<and>
   ((d \<noteq> None \<or> df \<noteq> None \<or> (\<exists>e \<in> set new. etype e \<in> set DEATH_INDICATORS)) \<longrightarrow> d' \<noteq> None \<or> df' \<noteq> None)"
proof (induction refs arbitrary: b bf d df evs0 new)
  case Nil
  then show ?case by simp
next
  case (Cons r refs)
  from person_event_scan_step [OF Cons.prems(1)] obtain ev where
    ev: "get_event_from_handle db r = Some ev" and
    step: "person_event_scan lib db refs
       (if is_birth (etype ev) then Some ev else b,
        if (if is_birth (etype ev) then Some ev else b) = None \<and> bf = None \<and>
           is_birth_fallback lib (etype ev) then Some ev else bf,
        if is_death (etype ev) then Some ev else d,
        if (if is_death (etype ev) then Some ev else d) = None \<and> df = None \<and>
           etype ev \<in> set DEATH_INDICATORS then Some ev else df,
        evs0 @ [ev]) = Inr (b', bf', d', df', evs')"
    by blast
  from Cons.prems(2) ev obtain rest where
    rest: "those (map (get_event_from_handle db) refs) = Some rest" and new: "new = ev # rest"
    by (auto split: option.splits)
  from Cons.IH [OF step rest] show ?case
    unfolding new by (auto split: if_splits)
qed

lemma key_events_events:
  "key_events lib db fam evs lastval = Inr keyed \<Longrightarrow> map snd keyed = evs"
  by (induction evs arbitrary: lastval keyed) (auto split: sum.splits)

lemma prepare_event_sortvals_events:
  "prepare_event_sortvals lib db evs fam = Inr keyed \<Longrightarrow> map snd keyed = evs"
  by (auto simp: prepare_event_sortvals_def key_events_events split: if_splits)

lemma family_timelines_extends:
  "family_timelines lib db hs evs keyed = Inr keyed' \<Longrightarrow> \<exists>family_keyed. keyed' = keyed @ family_keyed"
proof (induction hs arbitrary: evs keyed)
  case Nil
  then show ?case by simp
next
  case (Cons h hs)
  from Cons.prems obtain f evs1 family_keyed where
    step: "family_timelines lib db hs evs1 (keyed @ family_keyed) = Inr keyed'"
    by (auto split: sum.splits)
  from Cons.IH [OF step] show ?case by auto
qed

lemma extract_person_events_vitals:
  assumes "extract_person_events lib db p = Inr (keyed, birth, death)"
  shows "(\<forall>b. birth = Some b \<longrightarrow> b \<in> snd ` set keyed) \<and>
         (\<forall>d. death = Some d \<longrightarrow> d \<in> snd ` set keyed)"
proof -
  from assms obtain b bf d df evs own where
    scan: "person_event_scan lib db (event_ref_list p) (None, None, None, None, []) =
             Inr (b, bf, d, df, evs)"
    and own: "prepare_event_sortvals lib db evs None = Inr own"
    and fam: "family_timelines lib db (family_list p) [] own = Inr keyed"
    and birth: "birth = (if b = None \<and> bf \<noteq> None then bf else b)"
    and death: "death = (if d = None \<and> df \<noteq> None then df else d)"
    by (auto simp: extract_person_events_def Let_def split: sum.splits)
  have evs: "set evs \<subseteq> snd ` set keyed"
    using prepare_event_sortvals_events [OF own] family_timelines_extends [OF fam]
    by (metis Un_upper1 image_Un image_set set_append)
  have "\<forall>x. b = Some x \<or> bf = Some x \<longrightarrow> x \<in> set evs"
    by (rule person_event_scan_birth_member [OF scan]) simp
  moreover have "\<forall>x. d = Some x \<or> df = Some x \<longrightarrow> x \<in> set evs"
    by (rule person_event_scan_death_member [OF scan]) simp
  ultimately show ?thesis
    using evs birth death by (auto split: if_splits)
qed

lemma extract_person_events_chosen:
  assumes "extract_person_events lib db p = Inr (keyed, birth, death)"
  shows "\<exists>evs. those (map (get_event_from_handle db) (event_ref_list p)) = Some evs \<and>
     ((\<exists>e \<in> set evs. is_birth (etype e)) \<longrightarrow> (\<exists>b. birth = Some b \<and> is_birth (etype b))) \<and>
     ((\<exists>e \<in> set evs. is_birth_fallback lib (etype e)) \<longrightarrow>
        (\<exists>b. birth = Some b \<and> (is_birth (etype b) \<or> is_birth_fallback lib (etype b)))) \<and>
     ((\<exists>e \<in> set evs. is_death (etype e)) \<longrightarrow> (\<exists>d. death = Some d \<and> is_death (etype d))) \<and>
     ((\<exists>e \<in> set evs. etype e \<in> set DEATH_INDICATORS) \<longrightarrow>
        (\<exists>d. death = Some d \<and> etype d \<in> set DEATH_INDICATORS))"
proof -
  from assms obtain b bf d df evs where
    scan: "person_event_scan lib db (event_ref_list p) (None, None, None, None, []) =
             Inr (b, bf, d, df, evs)"
    and birth: "birth = (if b = None \<and> bf \<noteq> None then bf else b)"
    and death: "death = (if d = None \<and> df \<noteq> None then df else d)"
    by (auto simp: extract_person_events_def Let_def split: sum.splits)
  from person_event_scan_events [OF scan] have
    evs: "those (map (get_event_from_handle db) (event_ref_list p)) = Some evs"
    by simp
  have kb: "(\<forall>x. b = Some x \<longrightarrow> is_birth (etype x)) \<and>
            (\<forall>x. bf = Some x \<longrightarrow> is_birth_fallback lib (etype x))"
    by (rule person_event_scan_birth_kinds [OF scan]) simp
  have kd: "(\<forall>x. d = Some x \<longrightarrow> is_death (etype x)) \<and>
            (\<forall>x. df = Some x \<longrightarrow> etype x \<in> set DEATH_INDICATORS)"
    by (rule person_event_scan_death_kinds [OF scan]) simp
  have d_ind: "\<And>x. is_death (etype x) \<Longrightarrow> etype x \<in> set DEATH_INDICATORS"
    by (simp add: is_death_def DEATH_INDICATORS_def)
  have fb: "((\<exists>e \<in> set evs. is_birth (etype e)) \<longrightarrow> b \<noteq> None) \<and>
            ((\<exists>e \<in> set evs. is_birth_fallback lib (etype e)) \<longrightarrow> b \<noteq> None \<or> bf \<noteq> None)"
    using person_event_scan_birth_found [OF scan evs] by simp
  have fd: "((\<exists>e \<in> set evs. is_death (etype e)) \<longrightarrow> d \<noteq> None) \<and>
            ((\<exists>e \<in> set evs. etype e \<in> set DEATH_INDICATORS) \<longrightarrow> d \<noteq> None \<or> df \<noteq> None)"
    using person_event_scan_death_found [OF scan evs] by simp
  have "((\<exists>e \<in> set evs. is_birth (etype e)) \<longrightarrow> (\<exists>b. birth = Some b \<and> is_birth (etype b)))"
    using kb fb birth by auto
  moreover have "((\<exists>e \<in> set evs. is_birth_fallback lib (etype e)) \<longrightarrow>
        (\<exists>b. birth = Some b \<and> (is_birth (etype b) \<or> is_birth_fallback lib (etype b))))"
    using kb fb birth by auto
  moreover have "((\<exists>e \<in> set evs. is_death (etype e)) \<longrightarrow> (\<exists>d. death = Some d \<and> is_death (etype d)))"
    using kd fd death by auto
  moreover have "((\<exists>e \<in> set evs. etype e \<in> set DEATH_INDICATORS) \<longrightarrow>
        (\<exists>d. death = Some d \<and> etype d \<in> set DEATH_INDICATORS))"
    using kd fd death d_ind by auto
  ultimately show ?thesis using evs by blast
qed

lemma merge_cache_grows:
  "set (cached_events self) \<subseteq>
   set (cached_events (merge_eligible_events lib self p keyed relation relative birth death))"
  by (rule merge_preserves [where P = "\<lambda>s. set (cached_events self) \<subseteq> set (cached_events s)"])
    auto

lemma merge_includes:
  assumes "start_date self = None" and "end_date self = None"
    and "(k, ev) \<in> set keyed"
    and "is_eligible lib self ev relative \<or> override birth death ev"
  shows "handle ev \<in>
    set (cached_events (merge_eligible_events lib self p keyed relation relative birth death))"
  using assms
proof (induction keyed arbitrary: self)
  case Nil
  then show ?case by simp
next
  case (Cons keyed_event rest)
  let ?next = "self\<lparr>timeline :=
                  timeline self @ [(fst keyed_event, (snd keyed_event, p, relation))],
                cached_events := cached_events self @ [handle (snd keyed_event)]\<rparr>"
  have el: "is_eligible lib ?next ev relative = is_eligible lib self ev relative"
    by (simp add: is_eligible_def)
  show ?case
  proof (cases "keyed_event = (k, ev)")
    case True
    show ?thesis
    proof (cases "handle ev \<in> set (cached_events self)")
      case True
      then show ?thesis using merge_cache_grows by blast
    next
      case False
      have "handle ev \<in> set (cached_events ?next)" using True by simp
      then have "handle ev \<in> set (cached_events
          (merge_eligible_events lib ?next p rest relation relative birth death))"
        using merge_cache_grows by blast
      then show ?thesis
        using True False Cons.prems by auto
    qed
  next
    case False
    with Cons.prems have mem: "(k, ev) \<in> set rest" by simp
    have a: "handle ev \<in> set (cached_events
          (merge_eligible_events lib self p rest relation relative birth death))"
      using Cons.IH [OF Cons.prems(1,2) mem Cons.prems(4)] .
    have b: "handle ev \<in> set (cached_events
          (merge_eligible_events lib ?next p rest relation relative birth death))"
      using Cons.IH [of ?next] Cons.prems(1,2,4) mem el by simp
    show ?thesis using a b Cons.prems(1,2) by simp
  qed
qed


section \<open>Properties of the sort keys\<close>








section \<open>Properties of the ranking\<close>

lemma rank_event_vital:
  "rank_event lib gc rl al am rq (ev, t, primary, cnt, tot, highest) (v, alerts, found, n, c) =
     (v', alerts', found', n', c') \<Longrightarrow>
   v' = (if t \<in> {BIRTH, DEATH} then v - 1 else v)"
  by (simp add: rank_event_def Let_def split: if_splits)

lemma rank_event_totals:
  "rank_event lib gc rl al am rq (ev, t, primary, cnt, tot, highest) (v, alerts, found, n, c) =
     (v', alerts', found', n', c') \<Longrightarrow>
   (n', c') = (if (primary \<and> xml_str lib t \<in> set rl) \<or> ''events'' \<in> set rl
               then (n + 1, c + highest) else (n, c))"
  by (simp add: rank_event_def Let_def split: if_splits)

lemma rank_event_found:
  "rank_event lib gc rl al am rq (ev, t, primary, cnt, tot, highest) (v, alerts, found, n, c) =
     (v', alerts', found', n', c') \<Longrightarrow>
   set found' = (if primary \<and> xml_str lib t \<in> set rq
                 then insert (xml_str lib t) (set found) else set found)"
  by (auto simp: rank_event_def Let_def split: if_splits)

lemma rank_events_vital:
  "rank_events lib gc rl al am rq rows (v, alerts, found, n, c) = (v', alerts', found', n', c') \<Longrightarrow>
   v' = v - int (length (filter (\<lambda>(ev, t, rest). t \<in> {BIRTH, DEATH}) rows))"
proof (induction rows arbitrary: v alerts found n c)
  case Nil
  then show ?case by simp
next
  case (Cons row rows)
  obtain ev t primary cnt tot highest where row: "row = (ev, t, primary, cnt, tot, highest)"
    by (metis prod_cases6)
  obtain v1 a1 f1 n1 c1 where
    step: "rank_event lib gc rl al am rq row (v, alerts, found, n, c) = (v1, a1, f1, n1, c1)"
    by (metis prod_cases5)
  from Cons.prems step have
    rest: "rank_events lib gc rl al am rq rows (v1, a1, f1, n1, c1) = (v', alerts', found', n', c')"
    by simp
  from rank_event_vital [OF step [unfolded row]] Cons.IH [OF rest] show ?case
    by (simp add: row)
qed

lemma rank_events_totals:
  "rank_events lib gc rl al am rq rows (v, alerts, found, n, c) = (v', alerts', found', n', c') \<Longrightarrow>
   n' = n + int (length (filter (\<lambda>(ev, t, primary, cnt, tot, highest).
            (primary \<and> xml_str lib t \<in> set rl) \<or> ''events'' \<in> set rl) rows)) \<and>
   c' = c + sum_list (map (\<lambda>(ev, t, primary, cnt, tot, highest). highest)
          (filter (\<lambda>(ev, t, primary, cnt, tot, highest).
            (primary \<and> xml_str lib t \<in> set rl) \<or> ''events'' \<in> set rl) rows))"
proof (induction rows arbitrary: v alerts found n c)
  case Nil
  then show ?case by simp
next
  case (Cons row rows)
  obtain ev t primary cnt tot highest where row: "row = (ev, t, primary, cnt, tot, highest)"
    by (metis prod_cases6)
  obtain v1 a1 f1 n1 c1 where
    step: "rank_event lib gc rl al am rq row (v, alerts, found, n, c) = (v1, a1, f1, n1, c1)"
    by (metis prod_cases5)
  from Cons.prems step have
    rest: "rank_events lib gc rl al am rq rows (v1, a1, f1, n1, c1) = (v', alerts', found', n', c')"
    by simp
  from rank_event_totals [OF step [unfolded row]] Cons.IH [OF rest] show ?case
    by (simp add: row split: if_splits)
qed

lemma rank_events_found:
  "rank_events lib gc rl al am rq rows (v, alerts, found, n, c) = (v', alerts', found', n', c') \<Longrightarrow>
   set found' = set found \<union>
     {name. name \<in> set rq \<and>
        (\<exists>(ev, t, primary, cnt, tot, highest) \<in> set rows. primary \<and> xml_str lib t = name)}"
proof (induction rows arbitrary: v alerts found n c)
  case Nil
  then show ?case by simp
next
  case (Cons row rows)
  obtain ev t primary cnt tot highest where row: "row = (ev, t, primary, cnt, tot, highest)"
    by (metis prod_cases6)
  obtain v1 a1 f1 n1 c1 where
    step: "rank_event lib gc rl al am rq row (v, alerts, found, n, c) = (v1, a1, f1, n1, c1)"
    by (metis prod_cases5)
  from Cons.prems step have
    rest: "rank_events lib gc rl al am rq rows (v1, a1, f1, n1, c1) = (v', alerts', found', n', c')"
    by simp
  from rank_event_found [OF step [unfolded row]] Cons.IH [OF rest] show ?case
    by (auto simp: row split: if_splits)
qed

lemma rank_objects_totals:
  "rank_objects rows (n, c) =
     (n + int (length rows),
      c + sum_list (map (\<lambda>(obj, child_obj, label, cnt, tot, highest). highest) rows))"
  by (induction rows arbitrary: n c) (auto simp: case_prod_beta)

lemma get_status_ranking_result:
  assumes "collect_primary_object_data lib db obj (or_empty rank_list) =
      Inr (object_bucket, events_bucket)"
  obtains vital_count confidence_alerts found_list total_rank_items total_rank_confidence
  where "rank_events lib gc (or_empty rank_list) (or_empty alert_list) alert_minimum
           (or_empty required_list) events_bucket (2, [], [], 0, 0) =
         (vital_count, confidence_alerts, found_list, total_rank_items, total_rank_confidence)"
    and "get_status_ranking lib gc db obj rank_list alert_list alert_minimum required_list =
         Inr ((if vital_count > 0 then total_rank_items + vital_count else total_rank_items) +
                int (length object_bucket),
              total_rank_confidence +
                sum_list (map (\<lambda>(obj, child_obj, label, cnt, tot, highest). highest)
                  object_bucket),
              filter (\<lambda>item. item \<notin> set found_list) (or_empty required_list),
              confidence_alerts)"
proof -
  obtain v a f n c where
    r: "rank_events lib gc (or_empty rank_list) (or_empty alert_list) alert_minimum
           (or_empty required_list) events_bucket (2, [], [], 0, 0) = (v, a, f, n, c)"
    by (metis prod_cases5)
  show thesis
    by (rule that [OF r]) (simp add: get_status_ranking_def assms r rank_objects_totals)
qed


section \<open>Evaluation on the example data\<close>

lemma example_event_fields:
  "handle (example_event h t key) = h"
  "etype (example_event h t key) = t"
  "date (example_event h t key) = \<lparr>sortval = key\<rparr>"
  by (simp_all add: example_event_def)

lemma example_person_fields:
  "handle (example_person h event_refs families parent_families) = h"
  "event_ref_list (example_person h event_refs families parent_families) = event_refs"
  "family_list (example_person h event_refs families parent_families) = families"
  "parent_family_list (example_person h event_refs families parent_families) = parent_families"
  by (simp_all add: example_person_def)

lemma example_family_fields:
  "handle (example_family h father mother children event_refs) = h"
  "event_ref_list (example_family h father mother children event_refs) = event_refs"
  "father_handle (example_family h father mother children event_refs) = father"
  "mother_handle (example_family h father mother children event_refs) = mother"
  "child_ref_list (example_family h father mother children event_refs) =
     map (\<lambda>c. \<lparr>citation_list = [], ref = c\<rparr>) children"
  by (simp_all add: example_family_def)

lemma example_store_fields:
  "get_person_from_handle example_store =
     [''P1'' \<mapsto> example_person ''P1'' [''E1'', ''E2'', ''E3''] [''F1''] [],
      ''P2'' \<mapsto> example_person ''P2'' [''E6'', ''E7'', ''E8''] [''F1''] [],
      ''P3'' \<mapsto> example_person ''P3'' [''E5''] [] [''F1''],
      ''P4'' \<mapsto> example_person ''P4'' [''E9''] [] [''F2''],
         ''P8'' \<mapsto> example_person ''P8'' [] [] [],
         ''P9'' \<mapsto> example_person ''P9'' [''E1'', ''E4''] [] [],
         ''P10'' \<mapsto> example_person ''P10'' [''E16'', ''E5''] [] []]"
  "get_family_from_handle example_store =
     [''F1'' \<mapsto> example_family ''F1'' (Some ''P1'') (Some ''P2'') [''P3''] [''E4''],
      ''F2'' \<mapsto> example_family ''F2'' None None [''P4''] [''E10'', ''E11'']]"
  "get_event_from_handle example_store =
     [''E1'' \<mapsto> example_event ''E1'' BIRTH 1000,
      ''E2'' \<mapsto> example_event ''E2'' (OTHER ''Census'') 1500,
      ''E3'' \<mapsto> example_event ''E3'' DEATH 2000,
      ''E4'' \<mapsto> example_event ''E4'' MARRIAGE 0,
      ''E5'' \<mapsto> example_event ''E5'' BIRTH 1200,
      ''E6'' \<mapsto> example_event ''E6'' (OTHER ''Christening'') 1010,
      ''E7'' \<mapsto> example_event ''E7'' (OTHER ''Census'') 1500,
      ''E8'' \<mapsto> example_event ''E8'' BURIAL 1900,
      ''E9'' \<mapsto> example_event ''E9'' BIRTH 1,
      ''E10'' \<mapsto> example_event ''E10'' MARRIAGE 0,
      ''E11'' \<mapsto> example_event ''E11'' DIVORCE 0,
         ''E16'' \<mapsto> example_event ''E16'' (OTHER ''Christening'') 1300]"
  "get_event_types example_store = [''Homestead'']"
  by (simp_all add: example_store_def)

lemma example_library_fields:
  "type_str example_library = type_name"
  "xml_str example_library = type_name"
  "is_birth_fallback example_library t = (t = OTHER ''Christening'')"
  "probably_alive_range example_library p = (None, None)"
  "get_one_relationship example_library d r p =
     (if handle p = ''P2'' then ''wife'' else if handle p = ''P3'' then ''son'' else [])"
  by (simp_all add: example_library_def)

lemmas example_defs = example_store_fields example_library_fields example_timeline_def
  type_name_def example_event_fields example_person_fields example_family_fields

lemmas extract_defs = extract_person_events_def prepare_event_sortvals_def
  initial_lastval_def event_key_def generate_union_event_sortval_def py_nth_def lookup_def
  is_birth_def is_death_def is_marriage_def is_divorce_def DEATH_INDICATORS_def Let_def

lemmas run_defs = set_person_def set_family_def add_person_def lookup_def cache_person_def
  is_eligible_def override_def new_parent_def add_relative.simps add_family.simps
  default_bounds_def py_nth_def Let_def

lemma extract_P1:
  "extract_person_events example_library example_store
     (example_person ''P1'' [''E1'', ''E2'', ''E3''] [''F1''] []) =
   Inr ([(1000, example_event ''E1'' BIRTH 1000),
         (1500, example_event ''E2'' (OTHER ''Census'') 1500),
         (2000, example_event ''E3'' DEATH 2000),
         (1199, example_event ''E4'' MARRIAGE 0)],
        Some (example_event ''E1'' BIRTH 1000), Some (example_event ''E3'' DEATH 2000))"
  by (simp add: example_defs extract_defs)

lemma extract_P2:
  "extract_person_events example_library example_store
     (example_person ''P2'' [''E6'', ''E7'', ''E8''] [''F1''] []) =
   Inr ([(1010, example_event ''E6'' (OTHER ''Christening'') 1010),
         (1500, example_event ''E7'' (OTHER ''Census'') 1500),
         (1900, example_event ''E8'' BURIAL 1900),
         (1199, example_event ''E4'' MARRIAGE 0)],
        Some (example_event ''E6'' (OTHER ''Christening'') 1010),
        Some (example_event ''E8'' BURIAL 1900))"
  by (simp add: example_defs extract_defs)

lemma extract_P3:
  "extract_person_events example_library example_store
     (example_person ''P3'' [''E5''] [] [''F1'']) =
   Inr ([(1200, example_event ''E5'' BIRTH 1200)], Some (example_event ''E5'' BIRTH 1200), None)"
  by (simp add: example_defs extract_defs)

lemmas example_extracts = extract_P1 extract_P2 extract_P3



lemma keys_F2:
  "prepare_event_sortvals example_library example_store
     [example_event ''E10'' MARRIAGE 0, example_event ''E11'' DIVORCE 0]
     (Some (example_family ''F2'' None None [''P4''] [''E10'', ''E11''])) =
   Inr [(1, example_event ''E10'' MARRIAGE 0), (2, example_event ''E11'' DIVORCE 0)]"
  by (simp add: example_defs extract_defs)



lemma cited_event_fields:
  "handle (cited_event h t key citations) = h"
  "etype (cited_event h t key citations) = t"
  "citation_list (cited_event h t key citations) = citations"
  by (simp_all add: cited_event_def example_event_def)

lemma ranked_person_fields:
  "handle (ranked_person h event_refs birth death citations) = h"
  "citation_list (ranked_person h event_refs birth death citations) = citations"
  "event_ref_list (ranked_person h event_refs birth death citations) = event_refs"
  "family_list (ranked_person h event_refs birth death citations) = []"
  "parent_family_list (ranked_person h event_refs birth death citations) = []"
  "birth_ref (ranked_person h event_refs birth death citations) = birth"
  "death_ref (ranked_person h event_refs birth death citations) = death"
  by (simp_all add: ranked_person_def example_person_def)

lemma ranking_store_fields:
  "get_event_from_handle ranking_store =
        [''E1'' \<mapsto> cited_event ''E1'' BIRTH 1000 [],
         ''E2'' \<mapsto> cited_event ''E2'' (OTHER ''Census'') 1500 [],
         ''E12'' \<mapsto> cited_event ''E12'' BIRTH 1001 [''C1''],
         ''E13'' \<mapsto> cited_event ''E13'' BIRTH 1000 [''C1''],
         ''E14'' \<mapsto> cited_event ''E14'' DEATH 2000 [''C2'']]"
  "get_citation_from_handle ranking_store =
        [''C1'' \<mapsto> \<lparr>confidence = 3\<rparr>, ''C2'' \<mapsto> \<lparr>confidence = 3\<rparr>,
         ''C3'' \<mapsto> \<lparr>confidence = 4\<rparr>]"
  by (simp_all add: ranking_store_def)

lemmas ranking_defs = collect_primary_object_data_def collect_person_data_def
  collect_object_data_def collect_when_def collect_event_data_def
  get_preferred_vital_handles_def get_citation_metrics_def lookup_def or_empty_def
  cited_event_fields ranked_person_fields ranking_store_fields example_library_fields
  type_name_def

lemma collect_twice_born:
  "collect_primary_object_data example_library ranking_store
     (Person (ranked_person ''P5'' [''E1'', ''E12''] (Some ''E1'') None [])) [''events''] =
   Inr ([], [(cited_event ''E1'' BIRTH 1000 [], BIRTH, True, 0, 0, 0),
             (cited_event ''E12'' BIRTH 1001 [''C1''], BIRTH, False, 1, 3, 3)])"
  by (simp add: ranking_defs)

lemma collect_twice_born_unranked:
  "collect_primary_object_data example_library ranking_store
     (Person (ranked_person ''P5'' [''E1'', ''E12''] (Some ''E1'') None [])) [] =
   Inr ([], [(cited_event ''E1'' BIRTH 1000 [], BIRTH, True, 0, 0, 0),
             (cited_event ''E12'' BIRTH 1001 [''C1''], BIRTH, False, 1, 3, 3)])"
  by (simp add: ranking_defs)

lemma collect_cited:
  "collect_primary_object_data example_library ranking_store
     (Person (ranked_person ''P6'' [''E13'', ''E14''] (Some ''E13'') (Some ''E14'') [''C3'']))
     [''events'', ''object''] =
   Inr ([(Person (ranked_person ''P6'' [''E13'', ''E14''] (Some ''E13'') (Some ''E14'') [''C3'']),
          \<lparr>citation_list = [''C3'']\<rparr>, ''Person'', 1, 4, 4)],
        [(cited_event ''E13'' BIRTH 1000 [''C1''], BIRTH, True, 1, 3, 3),
         (cited_event ''E14'' DEATH 2000 [''C2''], DEATH, True, 1, 3, 3)])"
  by (simp add: ranking_defs)

lemma collect_census:
  "collect_primary_object_data example_library ranking_store
     (Person (ranked_person ''P7'' [''E2''] None None [])) [''events''] =
   Inr ([], [(cited_event ''E2'' (OTHER ''Census'') 1500 [], OTHER ''Census'', True, 0, 0, 0)])"
  by (simp add: ranking_defs)



lemma keys_fallback_first:
  "prepare_event_sortvals example_library example_store [example_event ''E4'' MARRIAGE 0]
     (Some (example_family ''F5'' None None [''P10''] [''E4''])) =
   Inr [(1299, example_event ''E4'' MARRIAGE 0)]"
  by (simp add: example_defs extract_defs)

lemma collect_twice_born_vital:
  "collect_primary_object_data example_library ranking_store
     (Person (ranked_person ''P5'' [''E1'', ''E12''] (Some ''E1'') None []))
     [''Birth'', ''Death''] =
   Inr ([], [(cited_event ''E1'' BIRTH 1000 [], BIRTH, True, 0, 0, 0),
             (cited_event ''E12'' BIRTH 1001 [''C1''], BIRTH, False, 1, 3, 3)])"
  by (simp add: ranking_defs)

lemma collect_cited_unranked:
  "collect_primary_object_data example_library ranking_store
     (Person (ranked_person ''P6'' [''E13'', ''E14''] (Some ''E13'') (Some ''E14'') [''C3'']))
     [] =
   Inr ([],
        [(cited_event ''E13'' BIRTH 1000 [''C1''], BIRTH, True, 1, 3, 3),
         (cited_event ''E14'' DEATH 2000 [''C2''], DEATH, True, 1, 3, 3)])"
  by (simp add: ranking_defs)


section \<open>Unknown filter tokens\<close>

text \<open>
  Claim C6. If some token of the filter list is neither a standard type name, nor a custom
  type name of the store, nor one of the ten category names, the preparation raises the
  \<^verbatim>\<open>ValueError\<close>, carrying such a token; if every token is a known type or category, the
  preparation returns a set and raises nothing.
\<close>

theorem prepare_eligible_events_raises_iff:
  "((\<exists>key \<in> set fs. key \<notin> set (get_standard_xml meta) \<and> key \<notin> set cus \<and>
        key \<notin> set EVENT_CATEGORIES) \<longrightarrow>
    (\<exists>key \<in> set fs. key \<notin> set (get_standard_xml meta) \<and> key \<notin> set cus \<and>
        key \<notin> set EVENT_CATEGORIES \<and>
        prepare_eligible_events meta cus fs =
          Inl (ValueError (key @ '' is not a valid event or event category'')))) \<and>
   ((\<forall>key \<in> set fs. key \<in> set (get_standard_xml meta) \<or> key \<in> set cus \<or>
        key \<in> set EVENT_CATEGORIES) \<longrightarrow>
    (\<exists>el. prepare_eligible_events meta cus fs = Inr el))"
proof (intro conjI impI)
  assume "\<exists>key \<in> set fs. key \<notin> set (get_standard_xml meta) \<and> key \<notin> set cus \<and>
        key \<notin> set EVENT_CATEGORIES"
  from add_filter_types_raises [OF this, of "{''Birth'', ''Death''}"]
  show "\<exists>key \<in> set fs. key \<notin> set (get_standard_xml meta) \<and> key \<notin> set cus \<and>
        key \<notin> set EVENT_CATEGORIES \<and>
        prepare_eligible_events meta cus fs =
          Inl (ValueError (key @ '' is not a valid event or event category''))"
    by (auto simp: prepare_eligible_events_def)
next
  assume "\<forall>key \<in> set fs. key \<in> set (get_standard_xml meta) \<or> key \<in> set cus \<or>
        key \<in> set EVENT_CATEGORIES"
  from add_filter_types_returns [OF this, of "{''Birth'', ''Death''}"]
  show "\<exists>el. prepare_eligible_events meta cus fs = Inr el"
    by (auto simp: prepare_eligible_events_def Let_def)
qed

theorem prepare_eligible_events_raises_iff_witness:
  "prepare_eligible_events example_library [] [''NotARealType''] =
     Inl (ValueError ''NotARealType is not a valid event or event category'') \<and>
   (\<exists>el. prepare_eligible_events example_library [''Homestead'']
      [''vital'', ''Homestead'', ''Marriage''] = Inr el)"
  using prepare_eligible_events_raises_iff [of "[''NotARealType'']" example_library "[]"]
    prepare_eligible_events_raises_iff
      [of "[''vital'', ''Homestead'', ''Marriage'']" example_library "[''Homestead'']"]
  by (simp add: example_library_def EVENT_CATEGORIES_def)


section \<open>The date bounds of a run\<close>

text \<open>
  Claim C2. In a run that starts with both bounds configured, the bounds stay as they are and
  every entry of the timeline, and so of the sequence that \<^verbatim>\<open>events(raw=True)\<close> returns,
  has its key between the \<open>sortval\<close> of the start bound and that of the end bound, both
  included. The merge applies the two bound tests after the override, so the entries of
  overridden birth and death events lie in the range as well.
\<close>

theorem run_keys_within_bounds:
  assumes "start_date self = Some first" and "end_date self = Some final"
    and "run lib db self start calls = Inr self'"
  shows "start_date self' = Some first \<and> end_date self' = Some final \<and>
    (\<forall>entry \<in> set (timeline self'). sortval first \<le> fst entry \<and> fst entry \<le> sortval final) \<and>
    (\<exists>ks. fst (events self' True) = Keyed ks \<and>
       (\<forall>entry \<in> set ks. sortval first \<le> fst entry \<and> fst entry \<le> sortval final))"
proof -
  have w: "within (sortval first) (sortval final) self'"
    using run_within [OF assms(1,2)] assms(3) by blast
  have u: "start_date self' = start_date self \<and> end_date self' = end_date self"
  proof (rule run_establishes
      [where P = "\<lambda>s. start_date s = start_date self \<and> end_date s = end_date self", OF _ _ _ _ _ assms(3)])
    show "\<And>lib s p keyed rel r b d.
        start_date s = start_date self \<and> end_date s = end_date self \<Longrightarrow>
        start_date (merge_eligible_events lib s p keyed rel r b d) = start_date self \<and>
        end_date (merge_eligible_events lib s p keyed rel r b d) = end_date self"
      by (simp add: merge_unchanged)
    show "\<And>s p b. start_date s = start_date self \<and> end_date s = end_date self \<Longrightarrow>
        start_date (cache_person s p b) = start_date self \<and>
        end_date (cache_person s p b) = end_date self"
      by (simp add: cache_person_fields)
    show "\<And>s p keyed b d s'.
        start_date s = start_date self \<and> end_date s = end_date self \<Longrightarrow>
        default_bounds lib s p keyed b d = Inr s' \<Longrightarrow>
        start_date s' = start_date self \<and> end_date s' = end_date self"
      using assms(1,2) default_bounds_configured by (metis option.distinct(1) sum.inject(2))
  qed simp_all
  show ?thesis
    using w u assms(1,2) by (auto simp: within_def events_def Let_def)
qed

theorem run_keys_within_bounds_witness:
  "\<exists>s ks. run example_library example_store
        (example_timeline\<lparr>start_date := Some \<lparr>sortval = 1200\<rparr>,
                          end_date := Some \<lparr>sortval = 1800\<rparr>\<rparr>)
        (Set_person ''P1'' 0 0) [Add_person ''P2'', Add_family ''F1'' 0 0 True] = Inr s \<and>
      cached_events s = [''E2'', ''E7'', ''E5''] \<and>
      fst (events s True) = Keyed ks \<and>
      (\<forall>entry \<in> set ks. 1200 \<le> fst entry \<and> fst entry \<le> 1800)"
proof -
  let ?self = "example_timeline\<lparr>start_date := Some \<lparr>sortval = 1200\<rparr>,
                          end_date := Some \<lparr>sortval = 1800\<rparr>\<rparr>"
  have "\<exists>s. run example_library example_store ?self
        (Set_person ''P1'' 0 0) [Add_person ''P2'', Add_family ''F1'' 0 0 True] = Inr s \<and>
      cached_events s = [''E2'', ''E7'', ''E5'']"
    by (simp add: example_defs run_defs example_extracts)
  then obtain s where r: "run example_library example_store ?self
        (Set_person ''P1'' 0 0) [Add_person ''P2'', Add_family ''F1'' 0 0 True] = Inr s"
    and c: "cached_events s = [''E2'', ''E7'', ''E5'']"
    by blast
  have b: "start_date ?self = Some \<lparr>sortval = 1200\<rparr>" "end_date ?self = Some \<lparr>sortval = 1800\<rparr>"
    by simp_all
  from run_keys_within_bounds [OF b r] r c show ?thesis by auto
qed

section \<open>Each event once\<close>

text \<open>
  Claim C4. After a run (one \<^verbatim>\<open>set_person\<close> or \<^verbatim>\<open>set_family\<close>, then any calls of
  \<^verbatim>\<open>add_person\<close>, \<^verbatim>\<open>add_relative\<close> and \<^verbatim>\<open>add_family\<close>) the sequence returned by
  \<^verbatim>\<open>events\<close>, with or without keys, holds each event handle at most once, and the handles
  in it are those recorded in the cache of seen events.
\<close>

theorem run_events_distinct:
  assumes "run lib db self start calls = Inr self'"
  shows "(\<exists>ks. fst (events self' True) = Keyed ks \<and> distinct (event_handles ks) \<and>
            set (event_handles ks) = set (cached_events self')) \<and>
         (\<exists>items. fst (events self' False) = Plain items \<and>
            distinct (map (\<lambda>item. handle (fst item)) items))"
proof -
  let ?ks = "sort_key fst (timeline self')"
  have n: "no_duplicates self'" using run_no_duplicates [OF assms] .
  have "mset (event_handles ?ks) = mset (event_handles (timeline self'))"
    by (simp add: event_handles_def)
  then have m: "mset (event_handles ?ks) = mset (cached_events self')"
    using n by (simp add: no_duplicates_def)
  have d: "distinct (event_handles ?ks)"
    using m n by (metis mset_eq_imp_distinct_iff no_duplicates_def)
  have s: "set (event_handles ?ks) = set (cached_events self')"
    using m by (rule mset_eq_setD)
  have "map (\<lambda>item. handle (fst item)) (map snd ?ks) = event_handles ?ks"
    by (simp add: event_handles_def)
  with d s show ?thesis
    by (simp add: events_def Let_def)
qed

theorem run_events_distinct_witness:
  "\<exists>s ks. run example_library example_store
        (example_timeline\<lparr>eligible_relatives := [''son'', ''wife''],
           eligible_relative_events := {''Birth'', ''Death'', ''Census''}\<rparr>)
        (Set_person ''P1'' 1 1) [] = Inr s \<and>
      fst (events s True) = Keyed ks \<and> distinct (event_handles ks) \<and>
      set (event_handles ks) = {''E1'', ''E2'', ''E3'', ''E5'', ''E6'', ''E7'', ''E8''}"
proof -
  have "\<exists>s. run example_library example_store
        (example_timeline\<lparr>eligible_relatives := [''son'', ''wife''],
           eligible_relative_events := {''Birth'', ''Death'', ''Census''}\<rparr>)
        (Set_person ''P1'' 1 1) [] = Inr s \<and>
      cached_events s = [''E1'', ''E2'', ''E3'', ''E6'', ''E7'', ''E8'', ''E5'']"
    by (simp add: example_defs run_defs example_extracts)
  then obtain s where r: "run example_library example_store
        (example_timeline\<lparr>eligible_relatives := [''son'', ''wife''],
           eligible_relative_events := {''Birth'', ''Death'', ''Census''}\<rparr>)
        (Set_person ''P1'' 1 1) [] = Inr s"
    and c: "cached_events s = [''E1'', ''E2'', ''E3'', ''E6'', ''E7'', ''E8'', ''E5'']"
    by blast
  from run_events_distinct [OF r] r c show ?thesis by auto
qed

section \<open>The returned sequence\<close>

text \<open>
  Claim C5. \<^verbatim>\<open>events(raw=True)\<close> returns the entries of the timeline in non-decreasing order
  of key: each entry has a key at most that of the next one. The sort is stable (the entries
  of any one key keep their order) and loses or adds nothing, and \<^verbatim>\<open>events(raw=False)\<close>
  returns the same sequence with each entry reduced to its (event, person, relation) part.
\<close>

theorem events_sorted_stable:
  "\<exists>ks. fst (events self True) = Keyed ks \<and>
        fst (events self False) = Plain (map snd ks) \<and>
        (\<forall>i. Suc i < length ks \<longrightarrow> fst (ks ! i) \<le> fst (ks ! Suc i)) \<and>
        (\<forall>k. filter (\<lambda>entry. fst entry = k) ks = filter (\<lambda>entry. fst entry = k) (timeline self)) \<and>
        mset ks = mset (timeline self)"
proof -
  let ?ks = "sort_key fst (timeline self)"
  have "sorted (map fst ?ks)" by simp
  then have "\<forall>i. Suc i < length ?ks \<longrightarrow> fst (?ks ! i) \<le> fst (?ks ! Suc i)"
    by (auto simp: sorted_iff_nth_Suc)
  moreover have "\<forall>k. filter (\<lambda>entry. fst entry = k) ?ks = filter (\<lambda>entry. fst entry = k) (timeline self)"
    by (simp add: sort_key_stable)
  ultimately show ?thesis
    by (simp add: events_def Let_def)
qed

theorem events_sorted_stable_witness:
  "\<exists>ks. fst (events (example_timeline\<lparr>timeline :=
            [(3, example_event ''E3'' DEATH 3, example_person ''P1'' [] [] [], ''self''),
             (1, example_event ''E1'' BIRTH 1, example_person ''P1'' [] [] [], ''self''),
             (3, example_event ''E2'' BURIAL 3, example_person ''P1'' [] [] [], ''self'')]\<rparr>) True)
          = Keyed ks \<and>
        Suc 0 < length ks \<and> fst (ks ! 0) \<le> fst (ks ! Suc 0) \<and>
        map (\<lambda>entry. handle (fst (snd entry))) ks = [''E1'', ''E3'', ''E2'']"
  using events_sorted_stable [of "example_timeline\<lparr>timeline :=
            [(3, example_event ''E3'' DEATH 3, example_person ''P1'' [] [] [], ''self''),
             (1, example_event ''E1'' BIRTH 1, example_person ''P1'' [] [] [], ''self''),
             (3, example_event ''E2'' BURIAL 3, example_person ''P1'' [] [] [], ''self'')]\<rparr>"]
  by (simp add: events_def example_event_def)

section \<open>The dates argument\<close>

text \<open>
  Claim C10. A \<^verbatim>\<open>dates\<close> string without \<open>-\<close> is ignored: no bound is read from it and
  nothing is raised, so that the constructor, when the two filter lists are accepted, returns
  an object with neither bound set. A bound is only ever read from a side of the \<open>-\<close> that
  holds a \<open>/\<close>.
\<close>

theorem parse_dates_no_dash:
  "(CHR ''-'' \<notin> set str \<longrightarrow> parse_dates lib (Some str) = Inr (None, None)) \<and>
   (CHR ''-'' \<notin> set str \<and>
    prepare_eligible_events lib (get_event_types db) (or_empty evs) = Inr el \<and>
    prepare_eligible_events lib (get_event_types db) (or_empty rel_evs) = Inr rel_el \<longrightarrow>
      (\<exists>self. init lib db (Some str) evs rels rel_evs prec = Inr self \<and>
         start_date self = None \<and> end_date self = None)) \<and>
   (parse_dates lib (Some str) = Inr (lower_bound, upper_bound) \<longrightarrow>
      (lower_bound \<noteq> None \<longrightarrow>
         (\<exists>first second. split CHR ''-'' str = [first, second] \<and> CHR ''/'' \<in> set first)) \<and>
      (upper_bound \<noteq> None \<longrightarrow>
         (\<exists>first second. split CHR ''-'' str = [first, second] \<and> CHR ''/'' \<in> set second)))"
  by (auto simp: parse_dates_def init_def parse_side_def split: list.splits sum.splits if_splits)

theorem parse_dates_no_dash_witness:
  "CHR ''-'' \<notin> set ''1900/01/01'' \<and>
   parse_dates example_library (Some ''1900/01/01'') = Inr (None, None) \<and>
   (\<exists>self. init example_library example_store (Some ''1900/01/01'') (Some [''Census'']) None
        None 1 = Inr self \<and> start_date self = None \<and> end_date self = None) \<and>
   parse_dates example_library (Some ''1900/01/01-'') =
     Inr (Some (Date example_library 1900 1 1), None) \<and>
   (\<exists>first second. split CHR ''-'' ''1900/01/01-'' = [first, second] \<and> CHR ''/'' \<in> set first)"
proof -
  have e: "prepare_eligible_events example_library (get_event_types example_store)
             (or_empty (Some [''Census''])) = Inr {''Birth'', ''Death'', ''Census''}"
    by (simp add: prepare_eligible_events_def or_empty_def example_library_def
        example_store_def EVENT_CATEGORIES_def lower_def char_lower_def Let_def insert_commute)
  have r: "prepare_eligible_events example_library (get_event_types example_store)
             (or_empty None) = Inr {''Birth'', ''Death''}"
    by (simp add: prepare_eligible_events_def or_empty_def example_library_def
        example_store_def EVENT_CATEGORIES_def lower_def char_lower_def Let_def insert_commute)
  have p: "parse_dates example_library (Some ''1900/01/01-'') =
      Inr (Some (Date example_library 1900 1 1), None)"
    by (simp add: parse_dates_def parse_side_def parse_date_def example_library_def)
  from parse_dates_no_dash [where str = "''1900/01/01''" and lib = example_library
      and db = example_store and evs = "Some [''Census'']" and rel_evs = None and prec = 1
      and el = "{''Birth'', ''Death'', ''Census''}" and rel_el = "{''Birth'', ''Death''}"
      and rels = None]
    parse_dates_no_dash [where str = "''1900/01/01-''" and lib = example_library
      and lower_bound = "Some (Date example_library 1900 1 1)" and upper_bound = None]
    e r p
  show ?thesis by simp
qed

section \<open>Birth and death are kept\<close>

text \<open>
  Where the extraction of the events of a person returns, the merge keeps the chosen birth and
  death. With no date bound configured, \<^verbatim>\<open>set_person(handle)\<close> then returns a timeline that
  holds the handles of the birth and the death chosen by the extraction, whatever the filter
  lists are: the chosen events are among the candidates, the merge enters them even when they
  are not eligible, and \<^verbatim>\<open>events\<close> returns them. The chosen birth is a birth event when the
  person has one, and a birth or a substitute when the person has a substitute; likewise for the
  death. Every prepared set of eligible types holds \<open>Birth\<close> and \<open>Death\<close>.
\<close>

lemma set_person_keeps_chosen_vitals:
  assumes "start_date self = None" and "end_date self = None"
    and "get_person_from_handle db h = Some p"
    and "extract_person_events lib db p = Inr (keyed, birth, death)"
  shows "\<exists>self'. set_person lib db self h 0 0 = Inr self' \<and>
     (\<forall>b. birth = Some b \<longrightarrow>
        b \<in> snd ` set keyed \<and> handle b \<in> set (event_handles (timeline self'))) \<and>
     (\<forall>d. death = Some d \<longrightarrow>
        d \<in> snd ` set keyed \<and> handle d \<in> set (event_handles (timeline self'))) \<and>
     (\<exists>items. fst (events self' False) = Plain items \<and>
        (\<forall>b. birth = Some b \<longrightarrow> handle b \<in> (\<lambda>item. handle (fst item)) ` set items) \<and>
        (\<forall>d. death = Some d \<longrightarrow> handle d \<in> (\<lambda>item. handle (fst item)) ` set items)) \<and>
     (\<forall>custom filters eligible.
        prepare_eligible_events lib custom filters = Inr eligible \<longrightarrow>
          ''Birth'' \<in> eligible \<and> ''Death'' \<in> eligible)"
    and "\<exists>evs. those (map (get_event_from_handle db) (event_ref_list p)) = Some evs \<and>
     ((\<exists>e \<in> set evs. is_birth (etype e)) \<longrightarrow> (\<exists>b. birth = Some b \<and> is_birth (etype b))) \<and>
     ((\<exists>e \<in> set evs. is_birth_fallback lib (etype e)) \<longrightarrow>
        (\<exists>b. birth = Some b \<and> (is_birth (etype b) \<or> is_birth_fallback lib (etype b)))) \<and>
     ((\<exists>e \<in> set evs. is_death (etype e)) \<longrightarrow> (\<exists>d. death = Some d \<and> is_death (etype d))) \<and>
     ((\<exists>e \<in> set evs. etype e \<in> set DEATH_INDICATORS) \<longrightarrow>
        (\<exists>d. death = Some d \<and> etype d \<in> set DEATH_INDICATORS))"
proof -
  let ?reset = "self\<lparr>timeline := [], timeline_type := Some ''person'',
                      cached_people := Map.empty, cached_events := []\<rparr>"
  let ?merged = "merge_eligible_events lib ?reset p keyed ''self'' False birth death"
  let ?self' = "cache_person ?merged p birth"
  have run: "set_person lib db self h 0 0 = Inr ?self'"
    using assms(3,4) by (simp add: set_person_def lookup_def Let_def)
  have "no_duplicates ?reset" by (simp add: no_duplicates_def event_handles_def)
  then have "no_duplicates ?merged" by (rule merge_no_duplicates)
  then have handles: "event_handles (timeline ?self') = cached_events ?merged"
    by (simp add: no_duplicates_def cache_person_fields)
  have bounds: "start_date ?reset = None" "end_date ?reset = None"
    using assms(1,2) by simp_all
  have included: "handle e \<in> set (event_handles (timeline ?self'))"
    if "e \<in> snd ` set keyed" and "override birth death e" for e
  proof -
    from that(1) obtain k where "(k, e) \<in> set keyed" by force
    from merge_includes [OF bounds this, of lib False birth death p "''self''"] that(2)
    show ?thesis unfolding handles by simp
  qed
  have vit: "(\<forall>b. birth = Some b \<longrightarrow> b \<in> snd ` set keyed) \<and>
             (\<forall>d. death = Some d \<longrightarrow> d \<in> snd ` set keyed)"
    by (rule extract_person_events_vitals [OF assms(4)])
  have b: "\<forall>b. birth = Some b \<longrightarrow>
        b \<in> snd ` set keyed \<and> handle b \<in> set (event_handles (timeline ?self'))"
    using vit included by (auto simp: override_def)
  have d: "\<forall>d. death = Some d \<longrightarrow>
        d \<in> snd ` set keyed \<and> handle d \<in> set (event_handles (timeline ?self'))"
    using vit included by (auto simp: override_def)
  have items: "(\<lambda>item. handle (fst item)) ` set (map snd (sort_key fst (timeline ?self'))) =
      set (event_handles (timeline ?self'))"
    by (simp add: event_handles_def image_image)
  have ev: "fst (events ?self' False) = Plain (map snd (sort_key fst (timeline ?self')))"
    by (simp add: events_def Let_def)
  show "\<exists>self'. set_person lib db self h 0 0 = Inr self' \<and>
     (\<forall>b. birth = Some b \<longrightarrow>
        b \<in> snd ` set keyed \<and> handle b \<in> set (event_handles (timeline self'))) \<and>
     (\<forall>d. death = Some d \<longrightarrow>
        d \<in> snd ` set keyed \<and> handle d \<in> set (event_handles (timeline self'))) \<and>
     (\<exists>items. fst (events self' False) = Plain items \<and>
        (\<forall>b. birth = Some b \<longrightarrow> handle b \<in> (\<lambda>item. handle (fst item)) ` set items) \<and>
        (\<forall>d. death = Some d \<longrightarrow> handle d \<in> (\<lambda>item. handle (fst item)) ` set items)) \<and>
     (\<forall>custom filters eligible.
        prepare_eligible_events lib custom filters = Inr eligible \<longrightarrow>
          ''Birth'' \<in> eligible \<and> ''Death'' \<in> eligible)"
    using run b d ev items prepare_eligible_events_vital by (metis (no_types, lifting))
  show "\<exists>evs. those (map (get_event_from_handle db) (event_ref_list p)) = Some evs \<and>
     ((\<exists>e \<in> set evs. is_birth (etype e)) \<longrightarrow> (\<exists>b. birth = Some b \<and> is_birth (etype b))) \<and>
     ((\<exists>e \<in> set evs. is_birth_fallback lib (etype e)) \<longrightarrow>
        (\<exists>b. birth = Some b \<and> (is_birth (etype b) \<or> is_birth_fallback lib (etype b)))) \<and>
     ((\<exists>e \<in> set evs. is_death (etype e)) \<longrightarrow> (\<exists>d. death = Some d \<and> is_death (etype d))) \<and>
     ((\<exists>e \<in> set evs. etype e \<in> set DEATH_INDICATORS) \<longrightarrow>
        (\<exists>d. death = Some d \<and> etype d \<in> set DEATH_INDICATORS))"
    by (rule extract_person_events_chosen [OF assms(4)])
qed

lemma set_person_keeps_chosen_vitals_example:
  "\<exists>self'. set_person example_library example_store example_timeline ''P2'' 0 0 = Inr self' \<and>
     \<not> is_eligible example_library example_timeline
         (example_event ''E6'' (OTHER ''Christening'') 1010) False \<and>
     \<not> is_eligible example_library example_timeline (example_event ''E8'' BURIAL 1900) False \<and>
     ''E6'' \<in> set (event_handles (timeline self')) \<and>
     ''E8'' \<in> set (event_handles (timeline self'))"
proof -
  have p: "get_person_from_handle example_store ''P2'' =
      Some (example_person ''P2'' [''E6'', ''E7'', ''E8''] [''F1''] [])"
    by (simp add: example_store_fields)
  have n: "start_date example_timeline = None" "end_date example_timeline = None"
    by (simp_all add: example_timeline_def)
  have e: "\<not> is_eligible example_library example_timeline
         (example_event ''E6'' (OTHER ''Christening'') 1010) False"
     "\<not> is_eligible example_library example_timeline (example_event ''E8'' BURIAL 1900) False"
    by (simp_all add: is_eligible_def example_defs)
  from set_person_keeps_chosen_vitals(1) [OF n p extract_P2] e show ?thesis
    by (auto simp: example_event_fields)
qed

lemma person_event_scan_returns:
  "those (map (get_event_from_handle db) refs) = Some new \<Longrightarrow>
   \<exists>b' bf' d' df'. person_event_scan lib db refs (b, bf, d, df, acc) =
     Inr (b', bf', d', df', acc @ new)"
proof (induction refs arbitrary: b bf d df acc new)
  case Nil
  then show ?case by simp
next
  case (Cons r refs)
  from Cons.prems obtain ev rest where
    ev: "get_event_from_handle db r = Some ev"
    and rest: "those (map (get_event_from_handle db) refs) = Some rest"
    and new: "new = ev # rest"
    by (auto split: option.splits)
  have step: "person_event_scan lib db (r # refs) (b, bf, d, df, acc) =
     person_event_scan lib db refs
       (if is_birth (etype ev) then Some ev else b,
        if (if is_birth (etype ev) then Some ev else b) = None \<and> bf = None \<and>
           is_birth_fallback lib (etype ev) then Some ev else bf,
        if is_death (etype ev) then Some ev else d,
        if (if is_death (etype ev) then Some ev else d) = None \<and> df = None \<and>
           etype ev \<in> set DEATH_INDICATORS then Some ev else df,
        acc @ [ev])"
    by (simp only: person_event_scan.simps ev lookup_def Let_def option.case sum.case prod.case)
  show ?case
    unfolding step new using Cons.IH [OF rest, where acc = "acc @ [ev]"] by simp
qed

lemma event_key_no_family:
  "sortval (date ev) = 0 \<Longrightarrow> is_marriage (etype ev) \<or> is_divorce (etype ev) \<Longrightarrow>
   event_key lib db None ev lastval = Inl AttributeError"
  by (auto simp: event_key_def generate_union_event_sortval_def Let_def)

lemma event_key_plain:
  "\<not> (sortval (date ev) = 0 \<and> (is_marriage (etype ev) \<or> is_divorce (etype ev))) \<Longrightarrow>
   \<exists>key. event_key lib db fam ev lastval = Inr key"
  by (auto simp: event_key_def)

lemma key_events_no_family:
  "\<exists>e \<in> set evs. sortval (date e) = 0 \<and> (is_marriage (etype e) \<or> is_divorce (etype e)) \<Longrightarrow>
   key_events lib db None evs lastval = Inl AttributeError"
proof (induction evs arbitrary: lastval)
  case Nil
  then show ?case by simp
next
  case (Cons ev evs)
  show ?case
  proof (cases "sortval (date ev) = 0 \<and> (is_marriage (etype ev) \<or> is_divorce (etype ev))")
    case True
    then show ?thesis using event_key_no_family [of ev lib db lastval] by simp
  next
    case False
    from event_key_plain [OF False, of lib db None lastval] obtain key where
      key: "event_key lib db None ev lastval = Inr key" by blast
    from Cons.prems False have
      "\<exists>e \<in> set evs. sortval (date e) = 0 \<and> (is_marriage (etype e) \<or> is_divorce (etype e))"
      by auto
    from Cons.IH [OF this, of key] key show ?thesis by simp
  qed
qed

text \<open>
  Claim C3. For every person and every list of filters, with no date bound configured,
  \<^verbatim>\<open>set_person(handle)\<close> is to return a timeline that holds the birth and the death chosen for
  the person. The code does not: \<^verbatim>\<open>extract_person_events\<close> prepares the keys of the person's own
  events without a family, and for an event that is a marriage or a divorce and has no date
  \<^verbatim>\<open>generate_union_event_sortval\<close> then reads \<^verbatim>\<open>family.child_ref_list\<close> of \<^verbatim>\<open>None\<close>. So for
  every person whose own events all resolve and hold a marriage or a divorce without date, the
  extraction and \<^verbatim>\<open>set_person\<close> raise \<^verbatim>\<open>AttributeError\<close>, whatever the filters, the bounds and
  the depths are, and no timeline is returned, with the birth in it or without. The person \<open>P9\<close>,
  whose events are a birth dated 1000 and a marriage without date, is one.
\<close>

theorem set_person_undated_marriage_raises:
  assumes "get_person_from_handle db h = Some p"
    and "those (map (get_event_from_handle db) (event_ref_list p)) = Some evs"
    and "\<exists>e \<in> set evs. sortval (date e) = 0 \<and> (is_marriage (etype e) \<or> is_divorce (etype e))"
  shows "extract_person_events lib db p = Inl AttributeError \<and>
         set_person lib db self h ancestors offspring = Inl AttributeError"
proof -
  from person_event_scan_returns [OF assms(2), where lib = lib and b = None and bf = None
      and d = None and df = None and acc = "[]"]
  obtain b bf d df where
    scan: "person_event_scan lib db (event_ref_list p) (None, None, None, None, []) =
      Inr (b, bf, d, df, evs)"
    by auto
  have ne: "evs \<noteq> []" using assms(3) by auto
  have "prepare_event_sortvals lib db evs None = Inl AttributeError"
    using key_events_no_family [OF assms(3)] ne by (simp add: prepare_event_sortvals_def)
  with scan have x: "extract_person_events lib db p = Inl AttributeError"
    by (simp add: extract_person_events_def)
  with assms(1) show ?thesis
    by (simp add: set_person_def lookup_def)
qed

theorem set_person_undated_marriage_raises_witness:
  "get_person_from_handle example_store ''P9'' =
     Some (example_person ''P9'' [''E1'', ''E4''] [] []) \<and>
   get_event_from_handle example_store ''E1'' = Some (example_event ''E1'' BIRTH 1000) \<and>
   get_event_from_handle example_store ''E4'' = Some (example_event ''E4'' MARRIAGE 0) \<and>
   start_date example_timeline = None \<and> end_date example_timeline = None \<and>
   set_person example_library example_store example_timeline ''P9'' 0 0 = Inl AttributeError"
proof -
  have p: "get_person_from_handle example_store ''P9'' =
     Some (example_person ''P9'' [''E1'', ''E4''] [] [])"
    by (simp add: example_store_fields)
  have e: "those (map (get_event_from_handle example_store)
        (event_ref_list (example_person ''P9'' [''E1'', ''E4''] [] []))) =
      Some [example_event ''E1'' BIRTH 1000, example_event ''E4'' MARRIAGE 0]"
    by (simp add: example_store_fields example_person_fields)
  have m: "\<exists>e \<in> set [example_event ''E1'' BIRTH 1000, example_event ''E4'' MARRIAGE 0].
      sortval (date e) = 0 \<and> (is_marriage (etype e) \<or> is_divorce (etype e))"
    by (simp add: example_event_fields is_marriage_def)
  from set_person_undated_marriage_raises [OF p e m, of example_library example_timeline 0 0] p
  show ?thesis
    by (simp add: example_store_fields example_timeline_def)
qed

section \<open>Keys of undated marriages and divorces\<close>




section \<open>Which event rows are ranked\<close>

text \<open>
  Claim C1, as amended. In \<^verbatim>\<open>get_status_ranking\<close> an event row adds one to
  \<^verbatim>\<open>total_rank_items\<close> and its highest confidence to \<^verbatim>\<open>total_rank_confidence\<close> if and only if
  the row is primary with the name of its type in the rank list, or the keyword \<open>events\<close> is in
  the rank list; with that keyword every row counts, primary or not. The returned confidence
  is the sum of the highest confidences of these rows and of all rows of the object bucket.
\<close>

theorem ranked_rows_contribute:
  assumes "collect_primary_object_data lib db obj (or_empty rank_list) =
      Inr (object_bucket, events_bucket)"
  shows "(\<forall>ev t primary cnt tot highest v alerts found n c.
            snd (snd (snd (rank_event lib gc (or_empty rank_list) (or_empty alert_list)
              alert_minimum (or_empty required_list) (ev, t, primary, cnt, tot, highest)
              (v, alerts, found, n, c)))) =
            (if (primary \<and> xml_str lib t \<in> set (or_empty rank_list)) \<or>
                ''events'' \<in> set (or_empty rank_list)
             then (n + 1, c + highest) else (n, c))) \<and>
         (\<exists>rank_items missing alerts.
            get_status_ranking lib gc db obj rank_list alert_list alert_minimum required_list =
              Inr (rank_items,
                   sum_list (map (\<lambda>(ev, t, primary, cnt, tot, highest). highest)
                     (filter (\<lambda>(ev, t, primary, cnt, tot, highest).
                        (primary \<and> xml_str lib t \<in> set (or_empty rank_list)) \<or>
                        ''events'' \<in> set (or_empty rank_list)) events_bucket)) +
                   sum_list (map (\<lambda>(obj, child_obj, label, cnt, tot, highest). highest)
                     object_bucket),
                   missing, alerts))"
proof (intro conjI allI)
  fix ev t primary cnt tot highest v alerts found n c
  obtain v' a' f' n' c' where
    step: "rank_event lib gc (or_empty rank_list) (or_empty alert_list)
              alert_minimum (or_empty required_list) (ev, t, primary, cnt, tot, highest)
              (v, alerts, found, n, c) = (v', a', f', n', c')"
    by (metis prod_cases5)
  from rank_event_totals [OF step] step
  show "snd (snd (snd (rank_event lib gc (or_empty rank_list) (or_empty alert_list)
              alert_minimum (or_empty required_list) (ev, t, primary, cnt, tot, highest)
              (v, alerts, found, n, c)))) =
            (if (primary \<and> xml_str lib t \<in> set (or_empty rank_list)) \<or>
                ''events'' \<in> set (or_empty rank_list)
             then (n + 1, c + highest) else (n, c))"
    by simp
next
  from get_status_ranking_result [OF assms, of gc alert_list alert_minimum required_list]
  obtain v a f n c where
    r: "rank_events lib gc (or_empty rank_list) (or_empty alert_list) alert_minimum
           (or_empty required_list) events_bucket (2, [], [], 0, 0) = (v, a, f, n, c)"
    and g: "get_status_ranking lib gc db obj rank_list alert_list alert_minimum required_list =
         Inr ((if v > 0 then n + v else n) + int (length object_bucket),
              c + sum_list (map (\<lambda>(obj, child_obj, label, cnt, tot, highest). highest)
                  object_bucket),
              filter (\<lambda>item. item \<notin> set f) (or_empty required_list), a)"
    by blast
  from rank_events_totals [OF r] g
  show "\<exists>rank_items missing alerts.
            get_status_ranking lib gc db obj rank_list alert_list alert_minimum required_list =
              Inr (rank_items,
                   sum_list (map (\<lambda>(ev, t, primary, cnt, tot, highest). highest)
                     (filter (\<lambda>(ev, t, primary, cnt, tot, highest).
                        (primary \<and> xml_str lib t \<in> set (or_empty rank_list)) \<or>
                        ''events'' \<in> set (or_empty rank_list)) events_bucket)) +
                   sum_list (map (\<lambda>(obj, child_obj, label, cnt, tot, highest). highest)
                     object_bucket),
                   missing, alerts)"
    by simp
qed


text \<open>
  The claim as it was stated fails: a second birth event, not the preferred one and so not
  primary, is counted when \<open>events\<close> is in the rank list. The two rows give 2 items and the
  confidence 3 of the second row.
\<close>

theorem ranked_rows_contribute_counterexample:
  "collect_primary_object_data example_library ranking_store
     (Person (ranked_person ''P5'' [''E1'', ''E12''] (Some ''E1'') None [])) [''events''] =
     Inr ([], [(cited_event ''E1'' BIRTH 1000 [], BIRTH, True, 0, 0, 0),
               (cited_event ''E12'' BIRTH 1001 [''C1''], BIRTH, False, 1, 3, 3)]) \<and>
   get_status_ranking example_library example_confidence ranking_store
     (Person (ranked_person ''P5'' [''E1'', ''E12''] (Some ''E1'') None []))
     (Some [''events'']) None 0 None = Inr (2, 3, [], [])"
  by (simp add: collect_twice_born get_status_ranking_def or_empty_def rank_event_def
      example_library_fields type_name_def)


theorem ranked_rows_contribute_witness:
  "get_status_ranking example_library example_confidence ranking_store
     (Person (ranked_person ''P6'' [''E13'', ''E14''] (Some ''E13'') (Some ''E14'') [''C3'']))
     (Some [''events'', ''object'']) None 0 None = Inr (3, 10, [], [])"
proof -
  have c: "collect_primary_object_data example_library ranking_store
     (Person (ranked_person ''P6'' [''E13'', ''E14''] (Some ''E13'') (Some ''E14'') [''C3'']))
     (or_empty (Some [''events'', ''object''])) =
   Inr ([(Person (ranked_person ''P6'' [''E13'', ''E14''] (Some ''E13'') (Some ''E14'') [''C3'']),
          \<lparr>citation_list = [''C3'']\<rparr>, ''Person'', 1, 4, 4)],
        [(cited_event ''E13'' BIRTH 1000 [''C1''], BIRTH, True, 1, 3, 3),
         (cited_event ''E14'' DEATH 2000 [''C2''], DEATH, True, 1, 3, 3)])"
    by (simp add: or_empty_def collect_cited)
  from ranked_rows_contribute [OF c, of example_confidence None 0 None]
  show ?thesis
    by (simp add: collect_cited get_status_ranking_def or_empty_def rank_event_def
      example_library_fields type_name_def)
qed


section \<open>The two vital slots\<close>

text \<open>
  Claim C7, as amended. The counter of vital events starts at 2 and goes down by one for every
  row of the events bucket whose type is \<open>BIRTH\<close> or \<open>DEATH\<close>, primary or not; what is left of
  it, when positive, is added to the number of ranked items. The number returned is the number
  of ranked event rows, plus 2 minus the number of birth and death rows when that is positive,
  plus the number of rows of the object bucket. With no birth or death row the two slots are
  both added; a birth or death row takes a slot away whether or not the row is itself ranked.
\<close>

theorem vital_slots_counted:
  assumes "collect_primary_object_data lib db obj (or_empty rank_list) =
      Inr (object_bucket, events_bucket)"
    and "vital_rows = int (length (filter (\<lambda>(ev, t, rest). t \<in> {BIRTH, DEATH}) events_bucket))"
    and "ranked_rows = int (length (filter (\<lambda>(ev, t, primary, cnt, tot, highest).
            (primary \<and> xml_str lib t \<in> set (or_empty rank_list)) \<or>
            ''events'' \<in> set (or_empty rank_list)) events_bucket))"
  shows "\<exists>rank_confidence missing alerts.
     get_status_ranking lib gc db obj rank_list alert_list alert_minimum required_list =
       Inr (ranked_rows + (if 2 - vital_rows > 0 then 2 - vital_rows else 0) +
              int (length object_bucket),
            rank_confidence, missing, alerts) \<and>
     (vital_rows = 0 \<longrightarrow>
        get_status_ranking lib gc db obj rank_list alert_list alert_minimum required_list =
          Inr (ranked_rows + 2 + int (length object_bucket), rank_confidence, missing, alerts))"
proof -
  from get_status_ranking_result [OF assms(1), of gc alert_list alert_minimum required_list]
  obtain v a f n c where
    r: "rank_events lib gc (or_empty rank_list) (or_empty alert_list) alert_minimum
           (or_empty required_list) events_bucket (2, [], [], 0, 0) = (v, a, f, n, c)"
    and g: "get_status_ranking lib gc db obj rank_list alert_list alert_minimum required_list =
         Inr ((if v > 0 then n + v else n) + int (length object_bucket),
              c + sum_list (map (\<lambda>(obj, child_obj, label, cnt, tot, highest). highest)
                  object_bucket),
              filter (\<lambda>item. item \<notin> set f) (or_empty required_list), a)"
    by blast
  from rank_events_totals [OF r] rank_events_vital [OF r] g assms(2,3)
  show ?thesis by auto
qed

text \<open>
  The claim as it was stated, that the two slots always contribute, fails: a person with a
  preferred and a second birth event and the rank list \<open>Birth\<close>, \<open>Death\<close> gets 1 item, and a
  person with a preferred birth and death and no rank list gets 0 items.
\<close>

theorem vital_slots_counted_counterexample:
  "get_status_ranking example_library example_confidence ranking_store
     (Person (ranked_person ''P5'' [''E1'', ''E12''] (Some ''E1'') None []))
     (Some [''Birth'', ''Death'']) None 0 None = Inr (1, 0, [], []) \<and>
   get_status_ranking example_library example_confidence ranking_store
     (Person (ranked_person ''P6'' [''E13'', ''E14''] (Some ''E13'') (Some ''E14'') [''C3'']))
     None None 0 None = Inr (0, 0, [], [])"
  by (simp add: collect_twice_born_vital collect_cited_unranked get_status_ranking_def
      or_empty_def rank_event_def example_library_fields type_name_def)

theorem vital_slots_counted_witness:
  "\<exists>rank_confidence missing alerts.
     get_status_ranking example_library example_confidence ranking_store
       (Person (ranked_person ''P7'' [''E2''] None None [])) (Some [''events'']) None 0 None =
     Inr (3, rank_confidence, missing, alerts)"
proof -
  have c: "collect_primary_object_data example_library ranking_store
     (Person (ranked_person ''P7'' [''E2''] None None [])) (or_empty (Some [''events''])) =
   Inr ([], [(cited_event ''E2'' (OTHER ''Census'') 1500 [], OTHER ''Census'', True, 0, 0, 0)])"
    by (simp add: or_empty_def collect_census)
  from vital_slots_counted [OF c refl refl, of example_confidence None 0 None]
  show ?thesis by (simp add: or_empty_def)
qed

section \<open>Missing required events\<close>

text \<open>
  Claim C9. The missing alerts returned by \<^verbatim>\<open>get_status_ranking\<close> are the entries of the
  required list, in their order, whose name is not the type name of any primary row of the
  events bucket.
\<close>

theorem missing_alerts_exact:
  assumes "collect_primary_object_data lib db obj (or_empty rank_list) =
      Inr (object_bucket, events_bucket)"
  shows "\<exists>rank_items rank_confidence alerts.
     get_status_ranking lib gc db obj rank_list alert_list alert_minimum required_list =
       Inr (rank_items, rank_confidence,
            filter (\<lambda>item. \<not> (\<exists>(ev, t, primary, cnt, tot, highest) \<in> set events_bucket.
                               primary \<and> xml_str lib t = item))
              (or_empty required_list),
            alerts)"
proof -
  from get_status_ranking_result [OF assms, of gc alert_list alert_minimum required_list]
  obtain v a f n c where
    r: "rank_events lib gc (or_empty rank_list) (or_empty alert_list) alert_minimum
           (or_empty required_list) events_bucket (2, [], [], 0, 0) = (v, a, f, n, c)"
    and g: "get_status_ranking lib gc db obj rank_list alert_list alert_minimum required_list =
         Inr ((if v > 0 then n + v else n) + int (length object_bucket),
              c + sum_list (map (\<lambda>(obj, child_obj, label, cnt, tot, highest). highest)
                  object_bucket),
              filter (\<lambda>item. item \<notin> set f) (or_empty required_list), a)"
    by blast
  have "filter (\<lambda>item. item \<notin> set f) (or_empty required_list) =
        filter (\<lambda>item. \<not> (\<exists>(ev, t, primary, cnt, tot, highest) \<in> set events_bucket.
                               primary \<and> xml_str lib t = item))
              (or_empty required_list)"
    by (rule filter_cong) (use rank_events_found [OF r] in auto)
  with g show ?thesis by simp
qed

theorem missing_alerts_exact_witness:
  "\<exists>rank_items rank_confidence alerts.
     get_status_ranking example_library example_confidence ranking_store
       (Person (ranked_person ''P5'' [''E1'', ''E12''] (Some ''E1'') None []))
       None None 0 (Some [''Death'', ''Birth'']) =
     Inr (rank_items, rank_confidence, [''Death''], alerts)"
proof -
  have c: "collect_primary_object_data example_library ranking_store
     (Person (ranked_person ''P5'' [''E1'', ''E12''] (Some ''E1'') None [])) (or_empty None) =
   Inr ([], [(cited_event ''E1'' BIRTH 1000 [], BIRTH, True, 0, 0, 0),
             (cited_event ''E12'' BIRTH 1001 [''C1''], BIRTH, False, 1, 3, 3)])"
    by (simp add: or_empty_def collect_twice_born_unranked)
  from missing_alerts_exact [OF c, of example_confidence None 0 "Some [''Death'', ''Birth'']"]
  show ?thesis by (simp add: or_empty_def example_library_fields type_name_def)
qed

end
